theory Spec2Isabelle
  imports Complex_Main
begin

section \<open>Numbers and values of the script\<close>

text \<open>
  The script computes with JavaScript numbers, which are binary64 floating-point values.
  A number is modelled as \<open>NaN\<close>, \<open>Infinity\<close>, \<open>-Infinity\<close> or a finite value
  \<open>Fin x\<close>, where \<open>x\<close> is the real number the value stands for. Division, multiplication
  and subtraction of finite values return the exact result rounded to binary64
  (\<open>round64\<close> below). The numbers that enter the script (rates of a parsed body, a parsed
  amount) are binary64 values; the theorems hold for every real \<open>x\<close> in \<open>Fin x\<close>, and the
  example inputs are binary64 values. The two zeros are one value \<open>Fin 0\<close>: the
  comparisons and \<open>toFixed\<close> do not tell them apart.
\<close>

datatype jsnum = NaN | PInf | NInf | Fin real

text \<open>
  The values a parsed JSON object of rates can hold under a key, and \<open>Undefined\<close> for
  the read of a key that is absent.
\<close>

datatype jsval = Undefined | Null | Num jsnum

type_synonym rates = "string \<rightharpoonup> jsval"

definition member :: "rates \<Rightarrow> string \<Rightarrow> jsval" where
  \<comment> \<open>\<open>obj[key]\<close>\<close>
  "member obj k = (case obj k of None \<Rightarrow> Undefined | Some v \<Rightarrow> v)"

fun truthy :: "jsval \<Rightarrow> bool" where
  "truthy Undefined = False"
| "truthy Null = False"
| "truthy (Num NaN) = False"
| "truthy (Num (Fin x)) = (x \<noteq> 0)"
| "truthy (Num PInf) = True"
| "truthy (Num NInf) = True"

fun to_number :: "jsval \<Rightarrow> jsnum" where
  \<comment> \<open>the coercion of an operand of \<open>/\<close>, \<open>*\<close> and \<open>-\<close>\<close>
  "to_number Undefined = NaN"
| "to_number Null = Fin 0"
| "to_number (Num n) = n"

fun isNaN :: "jsnum \<Rightarrow> bool" where
  "isNaN NaN = True"
| "isNaN _ = False"

fun js_le :: "jsnum \<Rightarrow> jsnum \<Rightarrow> bool" where
  "js_le NaN _ = False"
| "js_le _ NaN = False"
| "js_le NInf _ = True"
| "js_le _ PInf = True"
| "js_le PInf _ = False"
| "js_le _ NInf = False"
| "js_le (Fin x) (Fin y) = (x \<le> y)"

fun js_less :: "jsnum \<Rightarrow> jsnum \<Rightarrow> bool" where
  "js_less NaN _ = False"
| "js_less _ NaN = False"
| "js_less PInf _ = False"
| "js_less _ NInf = False"
| "js_less NInf _ = True"
| "js_less _ PInf = True"
| "js_less (Fin x) (Fin y) = (x < y)"

subsection \<open>Rounding to binary64\<close>

text \<open>
  \<open>exponent x\<close> is the integer \<open>e\<close> with \<open>2^e \<le> |x| < 2^(e+1)\<close>, found by halving or
  doubling. \<open>round64 x\<close> is the binary64 value nearest to \<open>x\<close>, the one with the even
  significand at a tie: the significand has 53 bits, the least exponent of the last bit is
  \<open>-1074\<close> (gradual underflow), and a result of \<open>2^1024\<close> or more is an infinity.
\<close>

function exp_up :: "real \<Rightarrow> int" where
  "exp_up x = (if 2 \<le> x then exp_up (x / 2) + 1 else 0)"
  by pat_completeness auto
termination
proof (relation "measure (\<lambda>x. nat \<lfloor>x\<rfloor>)")
  show "wf (measure (\<lambda>x::real. nat \<lfloor>x\<rfloor>))" by simp
next
  fix x :: real
  assume x: "2 \<le> x"
  have "x / 2 \<le> x - 1" using x by simp
  then have "\<lfloor>x / 2\<rfloor> \<le> \<lfloor>x - 1\<rfloor>" by (rule floor_mono)
  moreover have "2 \<le> \<lfloor>x\<rfloor>" using x by (simp add: le_floor_iff)
  ultimately show "(x / 2, x) \<in> measure (\<lambda>x. nat \<lfloor>x\<rfloor>)" by simp
qed

function exp_down :: "real \<Rightarrow> int" where
  "exp_down x = (if 0 < x \<and> x < 1 then exp_down (x * 2) - 1 else 0)"
  by pat_completeness auto
termination
proof (relation "measure (\<lambda>x. nat \<lceil>1 / x\<rceil>)")
  show "wf (measure (\<lambda>x::real. nat \<lceil>1 / x\<rceil>))" by simp
next
  fix x :: real
  assume x: "0 < x \<and> x < 1"
  then have y: "1 < 1 / x" by simp
  then have c: "2 \<le> \<lceil>1 / x\<rceil>" by (simp add: le_ceiling_iff)
  have "1 / x \<le> of_int \<lceil>1 / x\<rceil>" by (rule le_of_int_ceiling)
  then have "1 / (x * 2) \<le> of_int \<lceil>1 / x\<rceil> / 2" by simp
  also have "\<dots> \<le> of_int (\<lceil>1 / x\<rceil> - 1)" using c by simp
  finally have "\<lceil>1 / (x * 2)\<rceil> \<le> \<lceil>1 / x\<rceil> - 1" by (rule ceiling_le)
  with c x show "(x * 2, x) \<in> measure (\<lambda>x. nat \<lceil>1 / x\<rceil>)" by simp
qed

declare exp_up.simps [simp del] exp_down.simps [simp del]

definition exponent :: "real \<Rightarrow> int" where
  "exponent x = (if 1 \<le> \<bar>x\<bar> then exp_up \<bar>x\<bar> else exp_down \<bar>x\<bar>)"

definition round_half_even :: "real \<Rightarrow> int" where
  "round_half_even y =
     (let n = \<lfloor>y\<rfloor>; r = y - of_int n
      in if r < 1 / 2 then n else if 1 / 2 < r then n + 1
         else if even n then n else n + 1)"

definition round64 :: "real \<Rightarrow> jsnum" where
  "round64 x =
     (let q = max (exponent x - 52) (- 1074);
          v = of_int (round_half_even (\<bar>x\<bar> / 2 powi q)) * 2 powi q
      in if 2 ^ 1024 \<le> v then (if 0 < x then PInf else NInf)
         else Fin (if x < 0 then - v else v))"

subsection \<open>The operators\<close>

fun js_div :: "jsnum \<Rightarrow> jsnum \<Rightarrow> jsnum" where
  "js_div NaN _ = NaN"
| "js_div _ NaN = NaN"
| "js_div PInf PInf = NaN"
| "js_div PInf NInf = NaN"
| "js_div NInf PInf = NaN"
| "js_div NInf NInf = NaN"
| "js_div PInf (Fin y) = (if 0 \<le> y then PInf else NInf)"
| "js_div NInf (Fin y) = (if 0 \<le> y then NInf else PInf)"
| "js_div (Fin x) PInf = Fin 0"
| "js_div (Fin x) NInf = Fin 0"
| "js_div (Fin x) (Fin y) =
     (if y = 0 then (if x = 0 then NaN else if 0 < x then PInf else NInf)
      else round64 (x / y))"

fun js_mul :: "jsnum \<Rightarrow> jsnum \<Rightarrow> jsnum" where
  "js_mul NaN _ = NaN"
| "js_mul _ NaN = NaN"
| "js_mul PInf PInf = PInf"
| "js_mul PInf NInf = NInf"
| "js_mul NInf PInf = NInf"
| "js_mul NInf NInf = PInf"
| "js_mul PInf (Fin y) = (if y = 0 then NaN else if 0 < y then PInf else NInf)"
| "js_mul NInf (Fin y) = (if y = 0 then NaN else if 0 < y then NInf else PInf)"
| "js_mul (Fin x) PInf = (if x = 0 then NaN else if 0 < x then PInf else NInf)"
| "js_mul (Fin x) NInf = (if x = 0 then NaN else if 0 < x then NInf else PInf)"
| "js_mul (Fin x) (Fin y) = round64 (x * y)"

fun js_sub :: "jsnum \<Rightarrow> jsnum \<Rightarrow> jsnum" where
  "js_sub NaN _ = NaN"
| "js_sub _ NaN = NaN"
| "js_sub PInf PInf = NaN"
| "js_sub NInf NInf = NaN"
| "js_sub PInf _ = PInf"
| "js_sub NInf _ = NInf"
| "js_sub (Fin x) PInf = NInf"
| "js_sub (Fin x) NInf = PInf"
| "js_sub (Fin x) (Fin y) = round64 (x - y)"

subsection \<open>\<open>Number.prototype.toFixed\<close>\<close>

text \<open>
  \<open>x.toFixed(f)\<close> picks the integer \<open>n\<close> for which \<open>n / 10^f\<close> is closest to \<open>|x|\<close>
  (the larger \<open>n\<close> at a tie) and writes it with \<open>f\<close> digits after the point, a minus
  sign first when \<open>x < 0\<close>. From \<open>10^21\<close> on it returns the exponent notation of
  \<open>x\<close> instead, which is kept symbolic here.
\<close>

datatype numtext =
    Fixed bool nat nat      \<comment> \<open>negative?, the integer \<open>n\<close>, the digit count \<open>f\<close>\<close>
  | NaN_text                \<comment> \<open>the text \<open>NaN\<close>\<close>
  | Infinity_text bool      \<comment> \<open>the text \<open>Infinity\<close>, or \<open>-Infinity\<close> when the flag is set\<close>
  | Exponent_text real      \<comment> \<open>the exponent notation of a value beyond \<open>10^21\<close>\<close>

definition toFixed :: "nat \<Rightarrow> jsnum \<Rightarrow> numtext" where
  "toFixed f v =
     (case v of
        NaN \<Rightarrow> NaN_text
      | PInf \<Rightarrow> Infinity_text False
      | NInf \<Rightarrow> Infinity_text True
      | Fin x \<Rightarrow>
          if 10 ^ 21 \<le> \<bar>x\<bar> then Exponent_text x
          else Fixed (x < 0) (nat \<lfloor>\<bar>x\<bar> * 10 ^ f + 1 / 2\<rfloor>) f)"

fun decimal :: "nat \<Rightarrow> string" where
  "decimal n =
     (if n < 10 then [''0123456789'' ! n]
      else decimal (n div 10) @ [''0123456789'' ! (n mod 10)])"

declare decimal.simps [simp del]

definition fixed_string :: "bool \<Rightarrow> nat \<Rightarrow> nat \<Rightarrow> string" where
  \<comment> \<open>the characters of \<open>Fixed neg n f\<close>\<close>
  "fixed_string neg n f =
     (let m = decimal n;
          m = (if f \<noteq> 0 then
                 (let k = length m;
                      m = (if k \<le> f then replicate (f + 1 - k) (CHR ''0'') @ m else m);
                      k = (if k \<le> f then f + 1 else k)
                  in take (k - f) m @ ''.'' @ drop (k - f) m)
               else m)
      in (if neg then ''-'' else '''') @ m)"

definition fixed_value :: "bool \<Rightarrow> nat \<Rightarrow> nat \<Rightarrow> real" where
  \<comment> \<open>the number that the text \<open>Fixed neg n f\<close> denotes\<close>
  "fixed_value neg n f = (if neg then - 1 else 1) * real n / 10 ^ f"

section \<open>Session state\<close>

text \<open>
  The globals of the script that the rate pipeline reads and writes, the cache document
  behind \<open>db\<close>, and a log of the requests for live rates (\<open>Fetch_attempt i\<close>, the
  request of loop index \<open>i\<close>) and of the timer waits (\<open>Backoff ms\<close>) in the order they
  happen.
\<close>

text \<open>
  The text in the \<open>rates\<close> field of the cache document: \<open>Json obj\<close> is a text that
  parses to the object \<open>obj\<close>, \<open>Malformed\<close> one that the parser rejects.
\<close>

datatype json_text = Json rates | Malformed

record snapshot =
  rates :: json_text
  timestamp :: string
  base :: string

datatype firestore =
    No_db                       \<comment> \<open>\<open>db\<close> was never set\<close>
  | Unreachable                 \<comment> \<open>\<open>getDoc\<close> and \<open>setDoc\<close> reject\<close>
  | Docs "snapshot option"      \<comment> \<open>the document at \<open>CACHE_DOC_PATH\<close>, if it exists\<close>

datatype event = Fetch_attempt nat | Backoff nat

record session =
  currencyRates :: rates
  isOfflineMode :: bool
  hasRatesLoaded :: bool
  db :: firestore
  events :: "event list"

definition API_BASE_CURRENCY :: string where
  "API_BASE_CURRENCY = ''USD''"

definition json_value :: "jsval \<Rightarrow> jsval option" where
  \<comment> \<open>what \<open>JSON.stringify\<close> writes for a property value: a non-finite number becomes
      \<open>null\<close>, an undefined property is left out\<close>
  "json_value v =
     (case v of
        Undefined \<Rightarrow> None
      | Null \<Rightarrow> Some Null
      | Num (Fin x) \<Rightarrow> Some (Num (Fin x))
      | Num _ \<Rightarrow> Some Null)"

definition JSON_stringify :: "rates \<Rightarrow> json_text" where
  "JSON_stringify obj = Json (\<lambda>k. case obj k of None \<Rightarrow> None | Some v \<Rightarrow> json_value v)"

fun JSON_parse :: "json_text \<Rightarrow> rates option" where
  \<comment> \<open>\<open>None\<close>: the parser throws\<close>
  "JSON_parse (Json obj) = Some obj"
| "JSON_parse Malformed = None"

definition saveRatesCache :: "string \<Rightarrow> session \<Rightarrow> session" where
  \<comment> \<open>\<open>now\<close> is \<open>new Date().toISOString()\<close>\<close>
  "saveRatesCache now s =
     (case db s of
        No_db \<Rightarrow> s
      | Unreachable \<Rightarrow> s
      | Docs _ \<Rightarrow>
          if dom (currencyRates s) = {} then s
          else s\<lparr>db := Docs (Some \<lparr>rates = JSON_stringify (currencyRates s),
                                     timestamp = now, base = API_BASE_CURRENCY\<rparr>)\<rparr>)"

definition loadRatesCache :: "session \<Rightarrow> bool \<times> session" where
  "loadRatesCache s =
     (case db s of
        No_db \<Rightarrow> (False, s)
      | Unreachable \<Rightarrow> (False, s)
      | Docs None \<Rightarrow> (False, s)
      | Docs (Some data) \<Rightarrow>
          (case JSON_parse (rates data) of
             None \<Rightarrow> (False, s)
           | Some parsed \<Rightarrow> (True, s\<lparr>currencyRates := parsed, isOfflineMode := True\<rparr>)))"

section \<open>\<open>fetchRates\<close>\<close>

text \<open>
  The outcome of one \<open>fetch(url)\<close> with the reading of its body: \<open>Failed\<close> stands for
  a network error, a status that is not ok and a body that does not parse, which all
  reach the \<open>catch\<close> block before the store is touched; \<open>Body b r\<close> is the parsed body
  \<open>{ base: b, rates: r }\<close> of the service. A body of another shape is not modelled, and
  the number of retries is a natural number.
\<close>

datatype response = Failed | Body string rates

function fetch_loop ::
  "(nat \<Rightarrow> response) \<Rightarrow> string \<Rightarrow> nat \<Rightarrow> nat \<Rightarrow> session \<Rightarrow> bool \<times> session" where
  "fetch_loop fetch now retries i s =
     (if i < retries then
        (let s = s\<lparr>events := events s @ [Fetch_attempt i]\<rparr> in
         case fetch i of
           Body data_base data_rates \<Rightarrow>
             (True, saveRatesCache now
                      (s\<lparr>currencyRates := data_rates(data_base \<mapsto> Num (Fin 1)),
                         hasRatesLoaded := True\<rparr>))
         | Failed \<Rightarrow>
             if i = retries - 1 then
               (let (cacheLoaded, s) = loadRatesCache s
                in (cacheLoaded, s\<lparr>hasRatesLoaded := cacheLoaded\<rparr>))
             else
               fetch_loop fetch now retries (i + 1)
                 (s\<lparr>events := events s @ [Backoff (2 ^ i * 1000)]\<rparr>))
      else (False, s))"
  by pat_completeness auto
termination
  by (relation "measure (\<lambda>(fetch, now, retries, i, s). retries - i)") auto

declare fetch_loop.simps [simp del]

definition fetchRates ::
  "(string \<Rightarrow> nat \<Rightarrow> response) \<Rightarrow> string \<Rightarrow> string \<Rightarrow> nat \<Rightarrow> session \<Rightarrow> bool \<times> session" where
  \<comment> \<open>\<open>fetch b i\<close> is the outcome of the \<open>i\<close>-th request of the latest rates for base \<open>b\<close>\<close>
  "fetchRates fetch now base_currency retries s =
     fetch_loop (fetch base_currency) now retries 0 (s\<lparr>isOfflineMode := False\<rparr>)"

definition failed_attempts :: "nat \<Rightarrow> nat \<Rightarrow> event list" where
  \<comment> \<open>the log of the failed requests \<open>i, ..., k - 1\<close>, each followed by its wait\<close>
  "failed_attempts i k = concat (map (\<lambda>j. [Fetch_attempt j, Backoff (2 ^ j * 1000)]) [i..<k])"

text \<open>
  A visit loads the script, which gives the globals their initial values, and then calls
  \<open>fetchRates\<close> once (\<open>init\<close>, \<open>initFirebase\<close>, \<open>fetchRatesAndInitialize\<close>). The
  cache document outlives the visit. A visit is given by its fetcher, its clock and its
  number of retries; \<open>after_visits\<close> is the state that a list of visits leaves.
\<close>

definition page_load :: "session \<Rightarrow> session" where
  "page_load s = s\<lparr>currencyRates := Map.empty, isOfflineMode := False,
                   hasRatesLoaded := False, events := []\<rparr>"

type_synonym visit = "(string \<Rightarrow> nat \<Rightarrow> response) \<times> string \<times> nat"

fun after_visits :: "string \<Rightarrow> visit list \<Rightarrow> session \<Rightarrow> session" where
  "after_visits b [] s = s"
| "after_visits b ((fetch, now, retries) # vs) s =
     after_visits b vs (snd (fetchRates fetch now b retries (page_load s)))"

section \<open>\<open>fetchHistoricalRates\<close>\<close>

text \<open>
  A key of the historical series is a calendar date, represented by its day number;
  \<open>new Date(key)\<close> is the midnight that starts the day, in milliseconds.
\<close>

type_synonym iso_date = int

definition Date_getTime :: "iso_date \<Rightarrow> int" where
  "Date_getTime d = d * 86400000"

record point =
  date :: iso_date
  rate :: jsval

datatype direction = Increased | Decreased | Stable

record trend =
  startPoint :: point
  endPoint :: point
  change :: jsnum
  percentageChange :: numtext
  trendText :: direction
  days_shown :: nat

datatype trend_view =
    Requires_live                \<comment> \<open>"Historical data requires a live connection."\<close>
  | No_data                      \<comment> \<open>"No historical data found for the selected pair."\<close>
  | Not_enough nat               \<comment> \<open>"Not enough data points (n) to show a meaningful trend."\<close>
  | Trend trend
  | Hist_error                   \<comment> \<open>"Error retrieving historical data. API limit or error."\<close>

text \<open>
  The historical response: the request fails, or the body parses to an object whose
  \<open>rates\<close> member is absent or is an object of dates in the order the loop visits them.
\<close>

datatype hist_response = Hist_failed | Hist_body "(iso_date \<times> rates) list option"

fun collect_rates :: "string \<Rightarrow> (iso_date \<times> rates) list \<Rightarrow> point list" where
  "collect_rates to [] = []"
| "collect_rates to ((d, obj) # rest) =
     (if truthy (member obj to) then \<lparr>date = d, rate = member obj to\<rparr> # collect_rates to rest
      else collect_rates to rest)"

definition sorted_rates :: "string \<Rightarrow> (iso_date \<times> rates) list \<Rightarrow> point list" where
  \<comment> \<open>the array \<open>rates\<close> after \<open>rates.sort(...)\<close>\<close>
  "sorted_rates to series = sort_key (\<lambda>p. Date_getTime (date p)) (collect_rates to series)"

definition trend_of :: "point list \<Rightarrow> trend" where
  "trend_of rs =
     (let startRate = to_number (rate (rs ! 0));
          endRate = to_number (rate (rs ! (length rs - 1)));
          chg = js_sub endRate startRate;
          pct = toFixed 2 (js_mul (js_div chg startRate) (Fin 100))
      in \<lparr>startPoint = rs ! 0, endPoint = rs ! (length rs - 1), change = chg,
          percentageChange = pct,
          trendText = (if js_less (Fin 0) chg then Increased
                       else if js_less chg (Fin 0) then Decreased else Stable),
          days_shown = length rs\<rparr>)"

definition fetchHistoricalRates :: "session \<Rightarrow> hist_response \<Rightarrow> string \<Rightarrow> trend_view" where
  "fetchHistoricalRates s resp to =
     (if \<not> hasRatesLoaded s \<or> isOfflineMode s then Requires_live
      else case resp of
        Hist_failed \<Rightarrow> Hist_error
      | Hist_body None \<Rightarrow> No_data
      | Hist_body (Some series) \<Rightarrow>
          if length series = 0 then No_data
          else (let rs = sorted_rates to series
                in if length rs < 2 then Not_enough (length rs) else Trend (trend_of rs)))"

section \<open>\<open>updateConversion\<close>\<close>

text \<open>
  The four ways \<open>updateConversion\<close> ends. \<open>NotReady\<close> leaves both displays alone,
  \<open>InvalidAmount\<close> and \<open>MissingRate\<close> set the total display to \<open>0.00\<close>, and
  \<open>Converted r t\<close> writes \<open>r\<close> into the rate display and \<open>t\<close> into the total display.
  \<open>amount\<close> is the value of \<open>parseFloat($fromAmount.value)\<close>. The two versions of the
  script differ here only in the alert of \<open>InvalidAmount\<close>, which one of them leaves out
  for an empty input. The request for the historical trend that follows a conversion is
  \<open>fetchHistoricalRates\<close> above.
\<close>

datatype conversion = NotReady | InvalidAmount | MissingRate | Converted numtext numtext

definition updateConversion :: "session \<Rightarrow> jsnum \<Rightarrow> string \<Rightarrow> string \<Rightarrow> conversion" where
  "updateConversion s amount fromCurrency toCurrency =
     (if \<not> hasRatesLoaded s then NotReady
      else if isNaN amount \<or> js_le amount (Fin 0) then InvalidAmount
      else if \<not> truthy (member (currencyRates s) fromCurrency)
              \<or> \<not> truthy (member (currencyRates s) toCurrency) then MissingRate
      else (let baseValue = js_div amount (to_number (member (currencyRates s) fromCurrency));
                result = js_mul baseValue (to_number (member (currencyRates s) toCurrency));
                rate = js_div (to_number (member (currencyRates s) toCurrency))
                              (to_number (member (currencyRates s) fromCurrency))
            in Converted (toFixed 4 rate) (toFixed 2 result)))"

text \<open>
  The condition on the cache document under which a load from it gives a store that maps
  the base currency \<open>b\<close> to 1: a snapshot that exists and parses maps \<open>b\<close> to 1.
\<close>

definition cache_maps_base_to_one :: "string \<Rightarrow> firestore \<Rightarrow> bool" where
  "cache_maps_base_to_one b fs =
     (case fs of
        Docs (Some data) \<Rightarrow>
          (case JSON_parse (rates data) of
             Some parsed \<Rightarrow> parsed b = Some (Num (Fin 1))
           | None \<Rightarrow> True)
      | _ \<Rightarrow> True)"

section \<open>Example inputs\<close>

text \<open>A loaded, online session holding three rates, used to instantiate the theorems below.\<close>

definition example_rates :: rates where
  "example_rates = [''USD'' \<mapsto> Num (Fin 1), ''JPY'' \<mapsto> Num (Fin 150), ''ZAR'' \<mapsto> Num (Fin 19)]"

definition example_session :: session where
  "example_session = \<lparr>currencyRates = example_rates, isOfflineMode = False,
     hasRatesLoaded = True, db = No_db, events = []\<rparr>"

text \<open>
  Live rates as the service sends them (without the base currency), two fetchers, and
  three sessions that have not loaded rates yet: one without a database, one whose cache
  holds the example rates, and one whose database holds no cache document.
\<close>

definition live_rates :: rates where
  "live_rates = [''EUR'' \<mapsto> Num (Fin (3 / 4)), ''JPY'' \<mapsto> Num (Fin 150)]"

definition second_attempt_succeeds :: "string \<Rightarrow> nat \<Rightarrow> response" where
  "second_attempt_succeeds b i = (if i = 0 then Failed else Body b live_rates)"

definition always_fails :: "string \<Rightarrow> nat \<Rightarrow> response" where
  "always_fails b i = Failed"

definition fresh_session :: session where
  "fresh_session = \<lparr>currencyRates = Map.empty, isOfflineMode = False,
     hasRatesLoaded = False, db = No_db, events = []\<rparr>"

definition cached_session :: session where
  "cached_session = fresh_session\<lparr>db := Docs (Some \<lparr>rates = Json example_rates,
     timestamp = ''2024-05-01T09:00:00.000Z'', base = ''USD''\<rparr>)\<rparr>"

definition empty_cache_session :: session where
  "empty_cache_session = fresh_session\<lparr>db := Docs None\<rparr>"

text \<open>
  Three historical responses for the target \<open>EUR\<close>: two days with the rates 1.20 and
  1.10, the later day first (the numbers are the binary64 values of the literals); two days
  with the rates 5 and 5.71875; and two days of which only one has a rate.
\<close>

definition two_day_series :: "(iso_date \<times> rates) list" where
  "two_day_series = [(19845, [''EUR'' \<mapsto> Num (round64 (12 / 10))]),
                     (19844, [''EUR'' \<mapsto> Num (round64 (11 / 10))])]"

definition rising_series :: "(iso_date \<times> rates) list" where
  "rising_series = [(19844, [''EUR'' \<mapsto> Num (Fin 5)]),
                    (19845, [''EUR'' \<mapsto> Num (Fin (183 / 32))])]"

definition one_day_series :: "(iso_date \<times> rates) list" where
  "one_day_series = [(19844, [''EUR'' \<mapsto> Num (Fin (9 / 8))]), (19845, Map.empty)]"

section \<open>Rounding and the retry loop\<close>

lemma toFixed_nonneg:
  assumes "0 \<le> x" "x < 10 ^ 21"
  shows "toFixed f (Fin x) = Fixed False (nat \<lfloor>x * 10 ^ f + 1 / 2\<rfloor>) f"
  using assms by (simp add: toFixed_def)

lemma round_half_up_close:
  fixes y :: real
  assumes "0 \<le> y"
  shows "\<bar>real (nat \<lfloor>y + 1 / 2\<rfloor>) - y\<bar> \<le> 1 / 2"
proof -
  have nn: "0 \<le> \<lfloor>y + 1 / 2\<rfloor>" using assms by simp
  have lo: "of_int \<lfloor>y + 1 / 2\<rfloor> \<le> y + 1 / 2" by (rule of_int_floor_le)
  have hi: "y + 1 / 2 < of_int \<lfloor>y + 1 / 2\<rfloor> + 1" by linarith
  have "real (nat \<lfloor>y + 1 / 2\<rfloor>) = of_int \<lfloor>y + 1 / 2\<rfloor>" using nn by simp
  with lo hi show ?thesis by linarith
qed

lemma fixed_value_close:
  fixes x :: real
  assumes "0 \<le> x"
  shows "\<bar>fixed_value False (nat \<lfloor>x * 10 ^ f + 1 / 2\<rfloor>) f - x\<bar> \<le> 1 / (2 * 10 ^ f)"
proof -
  let ?n = "real (nat \<lfloor>x * 10 ^ f + 1 / 2\<rfloor>)"
  have p: "(0::real) < 10 ^ f" by simp
  have "\<bar>?n - x * 10 ^ f\<bar> \<le> 1 / 2"
    using assms by (intro round_half_up_close) simp
  then have "\<bar>?n - x * 10 ^ f\<bar> / 10 ^ f \<le> (1 / 2) / 10 ^ f"
    by (rule divide_right_mono) simp
  moreover have "\<bar>?n - x * 10 ^ f\<bar> / 10 ^ f = \<bar>(?n - x * 10 ^ f) / 10 ^ f\<bar>"
    by simp
  moreover have "(?n - x * 10 ^ f) / 10 ^ f = ?n / 10 ^ f - x"
    by (simp add: diff_divide_distrib)
  ultimately show ?thesis by (simp add: fixed_value_def)
qed

lemma toFixed_close:
  assumes "0 \<le> v" "v < 10 ^ 21"
  shows "\<exists>n. toFixed f (Fin v) = Fixed False n f
            \<and> \<bar>fixed_value False n f - v\<bar> \<le> 1 / (2 * 10 ^ f)"
  using toFixed_nonneg [OF assms, of f] fixed_value_close [OF assms(1), of f] by auto

lemma exp_up_bounds: "1 \<le> x \<Longrightarrow> 2 powi exp_up x \<le> x \<and> x < 2 powi (exp_up x + 1)"
proof (induction x rule: exp_up.induct)
  case (1 x)
  show ?case
  proof (cases "2 \<le> x")
    case True
    then have e: "exp_up x = exp_up (x / 2) + 1" by (subst exp_up.simps) simp
    from True have "1 \<le> x / 2" by simp
    from "1.IH" [OF True this]
    have lo: "2 powi exp_up (x / 2) \<le> x / 2" and hi: "x / 2 < 2 powi (exp_up (x / 2) + 1)"
      by simp_all
    have s: "(2::real) powi (k + 1) = 2 powi k * 2" for k
      by (rule power_int_add_1) simp
    show ?thesis using lo hi unfolding e s by simp
  next
    case False
    then have "exp_up x = 0" by (subst exp_up.simps) simp
    with False "1.prems" show ?thesis by simp
  qed
qed

lemma exp_down_bounds:
  "0 < x \<Longrightarrow> x < 1 \<Longrightarrow> 2 powi exp_down x \<le> x \<and> x < 2 powi (exp_down x + 1)"
proof (induction x rule: exp_down.induct)
  case (1 x)
  have s: "(2::real) powi (k + 1) = 2 powi k * 2" for k
    by (rule power_int_add_1) simp
  from "1.prems" have e: "exp_down x = exp_down (x * 2) - 1" by (subst exp_down.simps) simp
  show ?case
  proof (cases "x * 2 < 1")
    case True
    from "1.prems" have "0 < x * 2" by simp
    from "1.IH" [OF _ this True] "1.prems"
    have lo: "2 powi exp_down (x * 2) \<le> x * 2" and hi: "x * 2 < 2 powi (exp_down (x * 2) + 1)"
      by simp_all
    have "2 powi exp_down (x * 2) = 2 powi (exp_down (x * 2) - 1) * (2::real)"
      using s [of "exp_down (x * 2) - 1"] by simp
    with lo hi show ?thesis unfolding e by (simp add: s)
  next
    case False
    then have "exp_down (x * 2) = 0" by (subst exp_down.simps) simp
    with False "1.prems" show ?thesis unfolding e by (simp add: power_int_minus)
  qed
qed

lemma exponent_bounds:
  assumes "x \<noteq> 0"
  shows "2 powi exponent x \<le> \<bar>x\<bar>" and "\<bar>x\<bar> < 2 powi (exponent x + 1)"
proof -
  have "2 powi exponent x \<le> \<bar>x\<bar> \<and> \<bar>x\<bar> < 2 powi (exponent x + 1)"
  proof (cases "1 \<le> \<bar>x\<bar>")
    case True
    then show ?thesis using exp_up_bounds [of "\<bar>x\<bar>"] by (simp add: exponent_def)
  next
    case False
    then show ?thesis using exp_down_bounds [of "\<bar>x\<bar>"] assms by (simp add: exponent_def)
  qed
  then show "2 powi exponent x \<le> \<bar>x\<bar>" and "\<bar>x\<bar> < 2 powi (exponent x + 1)" by simp_all
qed

lemma round_half_even_close: "\<bar>of_int (round_half_even y) - y\<bar> \<le> 1 / 2"
proof -
  have "of_int \<lfloor>y\<rfloor> \<le> y" "y < of_int \<lfloor>y\<rfloor> + 1" by linarith+
  then show ?thesis
    by (auto simp: round_half_even_def Let_def)
qed

lemma round_half_even_nonneg: "0 \<le> y \<Longrightarrow> 0 \<le> round_half_even y"
  by (auto simp: round_half_even_def Let_def)

lemma round64_nonneg:
  assumes "0 \<le> x" "round64 x = Fin v"
  shows "0 \<le> v"
proof -
  let ?q = "max (exponent x - 52) (- 1074)"
  have "0 \<le> \<bar>x\<bar> / 2 powi ?q" by simp
  then have "0 \<le> of_int (round_half_even (\<bar>x\<bar> / 2 powi ?q)) * (2::real) powi ?q"
    by (intro mult_nonneg_nonneg) (simp_all add: round_half_even_nonneg)
  with assms show ?thesis
    by (auto simp: round64_def Let_def split: if_splits)
qed

text \<open>
  In the normal range the rounding has a relative error of at most \<open>2^-53\<close>.
\<close>

lemma round64_relative:
  assumes lo: "2 powi (- 1022) \<le> \<bar>x\<bar>" and hi: "\<bar>x\<bar> < 2 ^ 1023"
  shows "\<exists>v. round64 x = Fin v \<and> \<bar>v - x\<bar> \<le> 2 powi (- 53) * \<bar>x\<bar>"
proof -
  define e where "e = exponent x"
  define q where "q = e - 52"
  define w where "w = of_int (round_half_even (\<bar>x\<bar> / 2 powi q)) * (2::real) powi q"
  have x0: "x \<noteq> 0" using lo by auto
  have p: "(0::real) < 2 powi k" for k by (simp add: zero_less_power_int)
  have elo: "2 powi e \<le> \<bar>x\<bar>" and ehi: "\<bar>x\<bar> < 2 powi (e + 1)"
    using exponent_bounds [OF x0] by (simp_all add: e_def)
  have "(2::real) powi (- 1022) < 2 powi (e + 1)" using lo ehi by linarith
  then have "- 1022 < e + 1"
    using power_int_increasing [of "e + 1" "- 1022" "2::real"] by (cases "- 1022 < e + 1") auto
  then have qmax: "max (exponent x - 52) (- 1074) = q" by (simp add: q_def e_def)
  have "\<bar>of_int (round_half_even (\<bar>x\<bar> / 2 powi q)) - \<bar>x\<bar> / 2 powi q\<bar> * 2 powi q
        \<le> 1 / 2 * 2 powi q"
    by (intro mult_right_mono round_half_even_close) (simp add: less_imp_le p)
  moreover have "\<bar>of_int (round_half_even (\<bar>x\<bar> / 2 powi q)) - \<bar>x\<bar> / 2 powi q\<bar> * 2 powi q
        = \<bar>w - \<bar>x\<bar>\<bar>"
  proof -
    have "w - \<bar>x\<bar> = (of_int (round_half_even (\<bar>x\<bar> / 2 powi q)) - \<bar>x\<bar> / 2 powi q) * 2 powi q"
      using p [of q] by (simp add: w_def left_diff_distrib)
    then show ?thesis using p [of q] by (simp add: abs_mult)
  qed
  moreover have "1 / 2 * (2::real) powi q = 2 powi (- 53) * 2 powi e"
  proof -
    have "(2::real) powi (- 53) * 2 powi e = 2 powi (- 53 + e)"
      by (rule power_int_add [symmetric]) simp
    also have "- 53 + e = (q - 1)" by (simp add: q_def)
    also have "(2::real) powi (q - 1) = 2 powi q / 2"
      by (simp add: power_int_diff)
    finally show ?thesis by simp
  qed
  ultimately have close: "\<bar>w - \<bar>x\<bar>\<bar> \<le> 2 powi (- 53) * 2 powi e" by simp
  also have "\<dots> \<le> 2 powi (- 53) * \<bar>x\<bar>"
    using elo by (intro mult_left_mono) (simp_all add: less_imp_le p)
  finally have rel: "\<bar>w - \<bar>x\<bar>\<bar> \<le> 2 powi (- 53) * \<bar>x\<bar>" .
  have "(2::real) powi (- 53) \<le> 1" by (simp add: power_int_minus_divide)
  then have "2 powi (- 53) * \<bar>x\<bar> \<le> \<bar>x\<bar>" by (simp add: mult_left_le_one_le)
  with rel have "w \<le> 2 * \<bar>x\<bar>" by linarith
  also have "\<dots> < 2 * 2 ^ 1023" using hi by simp
  finally have fin: "\<not> 2 ^ 1024 \<le> w" by simp
  have r: "round64 x = Fin (if x < 0 then - w else w)"
    using fin by (simp add: round64_def Let_def qmax w_def)
  have "\<bar>(if x < 0 then - w else w) - x\<bar> = \<bar>w - \<bar>x\<bar>\<bar>" by auto
  with rel r show ?thesis by simp
qed

lemmas round64_eval =
  round64_def exponent_def round_half_even_def exp_up.simps exp_down.simps Let_def

lemma round64_one: "round64 1 = Fin 1"
  by (simp add: round64_eval)

lemma js_div_self: "r \<noteq> 0 \<Longrightarrow> js_div (Fin r) (Fin r) = Fin 1"
  by (simp add: round64_one)



text \<open>
  The quotient and the product that \<open>updateConversion\<close> computes, in the normal range: the
  result is within \<open>2^-51\<close>, relatively, of the exact \<open>a / rf * rt\<close>.
\<close>

lemma quotient_product_close:
  assumes "0 < a" "0 < rf" "0 < rt"
    and qlo: "2 powi (- 1022) \<le> a / rf" and qhi: "a / rf < 2 ^ 1023"
    and plo: "2 powi (- 1021) \<le> a / rf * rt" and phi: "a / rf * rt < 2 ^ 1022"
  shows "\<exists>v. js_mul (js_div (Fin a) (Fin rf)) (Fin rt) = Fin v \<and> 0 \<le> v
            \<and> \<bar>v - a / rf * rt\<bar> \<le> 2 powi (- 51) * (a / rf * rt)"
proof -
  define u :: real where "u = 2 powi (- 53)"
  define z where "z = a / rf * rt"
  define lo :: real where "lo = 2 powi (- 1022)"
  define hi :: real where "hi = 2 ^ 1023"
  have u: "0 < u" "u \<le> 1 / 2" "4 * u = 2 powi (- 51)"
    by (simp_all add: u_def power_int_minus_divide)
  have lo: "2 powi (- 1021) = 2 * lo"
    by (simp add: lo_def power_int_minus_divide)
  have hi: "2 * 2 ^ 1022 = hi"
    by (simp add: hi_def)
  have z: "0 < z" using assms by (simp add: z_def)
  have zlo: "2 * lo \<le> z" using plo unfolding lo z_def .
  have zhi: "2 * z < hi" using phi unfolding hi [symmetric] z_def by linarith
  have q0: "0 < a / rf" using assms by simp
  have pos: "\<bar>a / rf\<bar> = a / rf" using q0 by (rule abs_of_pos)
  have "2 powi (- 1022) \<le> \<bar>a / rf\<bar>" "\<bar>a / rf\<bar> < 2 ^ 1023"
    using qlo qhi by (simp_all only: pos)
  from round64_relative [OF this]
  obtain b where b: "round64 (a / rf) = Fin b"
    and "\<bar>b - a / rf\<bar> \<le> 2 powi (- 53) * \<bar>a / rf\<bar>" by blast
  then have bc: "\<bar>b - a / rf\<bar> \<le> u * (a / rf)" by (simp only: pos u_def)
  have "b * rt - z = (b - a / rf) * rt"
    by (simp add: z_def left_diff_distrib)
  then have "\<bar>b * rt - z\<bar> = \<bar>b - a / rf\<bar> * rt"
    using assms by (simp only: abs_mult abs_of_pos)
  also have "\<dots> \<le> u * (a / rf) * rt"
    using bc assms by (intro mult_right_mono) simp_all
  also have "\<dots> = u * z" by (simp only: z_def mult.assoc)
  finally have pc: "\<bar>b * rt - z\<bar> \<le> u * z" .
  have "u * z \<le> 1 / 2 * z" using u z by (intro mult_right_mono) simp_all
  with pc have half: "z / 2 \<le> b * rt" and twice: "b * rt \<le> 2 * z" using z by linarith+
  have prodpos: "\<bar>b * rt\<bar> = b * rt" using half z by (intro abs_of_nonneg) linarith
  have "lo \<le> \<bar>b * rt\<bar>" "\<bar>b * rt\<bar> < hi"
    unfolding prodpos using half twice zlo zhi by linarith+
  then have "2 powi (- 1022) \<le> \<bar>b * rt\<bar>" "\<bar>b * rt\<bar> < 2 ^ 1023"
    unfolding lo_def hi_def .
  from round64_relative [OF this]
  obtain v where v: "round64 (b * rt) = Fin v"
    and "\<bar>v - b * rt\<bar> \<le> 2 powi (- 53) * \<bar>b * rt\<bar>" by blast
  then have vc: "\<bar>v - b * rt\<bar> \<le> u * (b * rt)" by (simp only: prodpos u_def)
  have "u * (b * rt) \<le> u * (2 * z)" using twice u by (intro mult_left_mono) simp_all
  with vc have "\<bar>v - b * rt\<bar> \<le> 2 * (u * z)" by simp
  with pc have "\<bar>v - z\<bar> \<le> 3 * (u * z)" by linarith
  also have "\<dots> \<le> 4 * (u * z)" using u z by simp
  also have "\<dots> = 4 * u * z" by simp
  finally have close: "\<bar>v - z\<bar> \<le> 2 powi (- 51) * z" by (simp only: u)
  have "0 \<le> b * rt" using half z by linarith
  then have v0: "0 \<le> v" using v by (rule round64_nonneg)
  have "rf \<noteq> 0" using assms by simp
  then have "js_div (Fin a) (Fin rf) = Fin b" using b by simp
  then have "js_mul (js_div (Fin a) (Fin rf)) (Fin rt) = Fin v" using v by simp
  with v0 close show ?thesis unfolding z_def by blast
qed


lemma saveRatesCache_fields [simp]:
  "currencyRates (saveRatesCache now s) = currencyRates s"
  "isOfflineMode (saveRatesCache now s) = isOfflineMode s"
  "hasRatesLoaded (saveRatesCache now s) = hasRatesLoaded s"
  "events (saveRatesCache now s) = events s"
  by (simp_all add: saveRatesCache_def split: firestore.splits)

lemma failed_attempts_same [simp]: "failed_attempts i i = []"
  by (simp add: failed_attempts_def)

lemma failed_attempts_Suc:
  "i \<le> k \<Longrightarrow> failed_attempts i (Suc k) = failed_attempts i k @ [Fetch_attempt k, Backoff (2 ^ k * 1000)]"
  by (simp add: failed_attempts_def)

lemma fetch_loop_failed_step:
  assumes "fetch i = Failed" "Suc i < retries"
  shows "fetch_loop fetch now retries i s =
         fetch_loop fetch now retries (Suc i)
           (s\<lparr>events := events s @ [Fetch_attempt i, Backoff (2 ^ i * 1000)]\<rparr>)"
proof -
  from assms have "i < retries" and "i \<noteq> retries - 1" by arith+
  with assms show ?thesis
    by (subst fetch_loop.simps) (simp add: Let_def)
qed

lemma fetch_loop_failed_prefix:
  assumes "\<forall>j. i \<le> j \<and> j < k \<longrightarrow> fetch j = Failed" "i \<le> k" "k < retries"
  shows "fetch_loop fetch now retries i s =
         fetch_loop fetch now retries k (s\<lparr>events := events s @ failed_attempts i k\<rparr>)"
  using assms
proof (induction k)
  case 0
  then show ?case by simp
next
  case (Suc k)
  show ?case
  proof (cases "i = Suc k")
    case True
    then show ?thesis by simp
  next
    case False
    with Suc.prems have ik: "i \<le> k" and kr: "Suc k < retries" and fk: "fetch k = Failed"
      by auto
    have "fetch_loop fetch now retries i s =
          fetch_loop fetch now retries k (s\<lparr>events := events s @ failed_attempts i k\<rparr>)"
      using Suc.IH Suc.prems ik by simp
    also have "\<dots> = fetch_loop fetch now retries (Suc k)
          (s\<lparr>events := events s @ failed_attempts i (Suc k)\<rparr>)"
      using fk kr ik by (simp add: fetch_loop_failed_step failed_attempts_Suc)
    finally show ?thesis .
  qed
qed

lemma fetch_loop_success:
  assumes "fetch k = Body b r" "k < retries"
  shows "fetch_loop fetch now retries k s =
         (True, saveRatesCache now
                  (s\<lparr>events := events s @ [Fetch_attempt k],
                     currencyRates := r(b \<mapsto> Num (Fin 1)), hasRatesLoaded := True\<rparr>))"
  using assms by (subst fetch_loop.simps) (simp add: Let_def)

lemma fetch_loop_last_failed:
  assumes "fetch k = Failed" "Suc k = retries"
  shows "fetch_loop fetch now retries k s =
         (fst (loadRatesCache (s\<lparr>events := events s @ [Fetch_attempt k]\<rparr>)),
          (snd (loadRatesCache (s\<lparr>events := events s @ [Fetch_attempt k]\<rparr>)))
            \<lparr>hasRatesLoaded := fst (loadRatesCache (s\<lparr>events := events s @ [Fetch_attempt k]\<rparr>))\<rparr>)"
  using assms by (subst fetch_loop.simps) (auto simp add: Let_def split: prod.splits)

section \<open>The conversion\<close>

lemma truthy_iff: "truthy v \<longleftrightarrow> v \<notin> {Undefined, Null, Num NaN, Num (Fin 0)}"
  by (cases v rule: truthy.cases) auto

lemma amount_guard_iff:
  "isNaN amount \<or> js_le amount (Fin 0) \<longleftrightarrow>
   amount = NaN \<or> amount = NInf \<or> (\<exists>x. amount = Fin x \<and> x \<le> 0)"
  by (cases amount) auto

lemma updateConversion_Converted:
  assumes "hasRatesLoaded s" "\<not> isNaN amount" "\<not> js_le amount (Fin 0)"
    and "truthy (member (currencyRates s) f)" "truthy (member (currencyRates s) t)"
  shows "updateConversion s amount f t =
         Converted (toFixed 4 (js_div (to_number (member (currencyRates s) t))
                                      (to_number (member (currencyRates s) f))))
                   (toFixed 2 (js_mul (js_div amount (to_number (member (currencyRates s) f)))
                                      (to_number (member (currencyRates s) t))))"
  using assms by (simp add: updateConversion_def Let_def)

lemma updateConversion_finite:
  assumes "hasRatesLoaded s"
    and "currencyRates s f = Some (Num (Fin rf))" "rf \<noteq> 0"
    and "currencyRates s t = Some (Num (Fin rt))" "rt \<noteq> 0"
    and "0 < a"
  shows "updateConversion s (Fin a) f t =
         Converted (toFixed 4 (js_div (Fin rt) (Fin rf)))
                   (toFixed 2 (js_mul (js_div (Fin a) (Fin rf)) (Fin rt)))"
proof -
  have "member (currencyRates s) f = Num (Fin rf)" "member (currencyRates s) t = Num (Fin rt)"
    using assms by (simp_all add: member_def)
  then show ?thesis
    using assms by (simp add: updateConversion_Converted del: js_div.simps js_mul.simps)
qed



text \<open>
  Claim C3, as amended. \<open>updateConversion\<close> tests in this order: the rates are loaded
  (else \<open>NotReady\<close>); the amount is not \<open>NaN\<close> and is greater than 0 (else
  \<open>InvalidAmount\<close>); both currencies have a truthy rate in the store (else
  \<open>MissingRate\<close>). The amount test rejects \<open>NaN\<close>, \<open>-Infinity\<close> and every finite
  amount that is not positive, and nothing else: \<open>Infinity\<close> passes it.
\<close>

theorem updateConversion_check_order:
  "(updateConversion s amount f t = NotReady \<longleftrightarrow> \<not> hasRatesLoaded s)
   \<and> (updateConversion s amount f t = InvalidAmount \<longleftrightarrow>
        hasRatesLoaded s
        \<and> (amount = NaN \<or> amount = NInf \<or> (\<exists>x. amount = Fin x \<and> x \<le> 0)))
   \<and> (updateConversion s amount f t = MissingRate \<longleftrightarrow>
        hasRatesLoaded s
        \<and> \<not> (amount = NaN \<or> amount = NInf \<or> (\<exists>x. amount = Fin x \<and> x \<le> 0))
        \<and> (\<not> truthy (member (currencyRates s) f) \<or> \<not> truthy (member (currencyRates s) t)))"
  unfolding amount_guard_iff [symmetric]
  by (simp add: updateConversion_def Let_def)

theorem updateConversion_check_order_witness:
  "updateConversion (example_session\<lparr>hasRatesLoaded := False\<rparr>) NaN ''USD'' ''XXX'' = NotReady
   \<and> updateConversion example_session NaN ''USD'' ''XXX'' = InvalidAmount
   \<and> updateConversion example_session (Fin 5) ''USD'' ''XXX'' = MissingRate"
  using updateConversion_check_order [of "example_session\<lparr>hasRatesLoaded := False\<rparr>" NaN "''USD''" "''XXX''"]
    updateConversion_check_order [of example_session NaN "''USD''" "''XXX''"]
    updateConversion_check_order [of example_session "Fin 5" "''USD''" "''XXX''"]
  by (simp add: example_session_def example_rates_def member_def)

text \<open>
  The amount \<open>Infinity\<close> is not rejected: the conversion goes through and the total
  display reads \<open>Infinity\<close>.
\<close>

theorem infinite_amount_counterexample:
  "updateConversion example_session PInf ''USD'' ''JPY'' =
     Converted (Fixed False 1500000 4) (Infinity_text False)"
  by (simp add: updateConversion_def example_session_def example_rates_def member_def toFixed_def
      round64_eval)

text \<open>
  Claim C7, as amended. With the rates loaded, a positive rate \<open>r\<close> stored for currency
  \<open>a\<close> and a positive amount, converting from \<open>a\<close> to \<open>a\<close> shows the rate \<open>1.0000\<close>.
  The total shown is the 2-digit rounding of the binary64 value \<open>(amount / r) * r\<close>, which
  in the normal range is within \<open>2^-51 * amount\<close> of the amount; so the total is within
  \<open>1/200 + 2^-51 * amount\<close> of the amount, and it need not be the amount rounded to 2
  digits.
\<close>

theorem same_currency_rate_one:
  assumes "hasRatesLoaded s"
    and "currencyRates s a = Some (Num (Fin r))" and "0 < r"
    and "0 < amount"
  shows "updateConversion s (Fin amount) a a =
           Converted (Fixed False 10000 4)
                     (toFixed 2 (js_mul (js_div (Fin amount) (Fin r)) (Fin r)))
       \<and> fixed_string False 10000 4 = ''1.0000''
       \<and> (2 powi (- 1022) \<le> amount / r \<and> amount / r < 2 ^ 1023
          \<and> 2 powi (- 1021) \<le> amount \<and> amount < 2 ^ 1022 \<longrightarrow>
            (\<exists>v. js_mul (js_div (Fin amount) (Fin r)) (Fin r) = Fin v
                \<and> \<bar>v - amount\<bar> \<le> 2 powi (- 51) * amount
                \<and> (v < 10 ^ 21 \<longrightarrow>
                     (\<exists>n. toFixed 2 (Fin v) = Fixed False n 2
                         \<and> \<bar>fixed_value False n 2 - amount\<bar>
                             \<le> 1 / 200 + 2 powi (- 51) * amount))))"
proof -
  have r: "r \<noteq> 0" using assms by simp
  have "updateConversion s (Fin amount) a a =
        Converted (toFixed 4 (js_div (Fin r) (Fin r)))
                  (toFixed 2 (js_mul (js_div (Fin amount) (Fin r)) (Fin r)))"
    using assms r by (intro updateConversion_finite) simp_all
  moreover have "toFixed 4 (js_div (Fin r) (Fin r)) = Fixed False 10000 4"
    unfolding js_div_self [OF r] by (simp add: toFixed_def)
  ultimately have shown: "updateConversion s (Fin amount) a a =
           Converted (Fixed False 10000 4)
                     (toFixed 2 (js_mul (js_div (Fin amount) (Fin r)) (Fin r)))"
    by simp
  have one_text: "fixed_string False 10000 4 = ''1.0000''"
    by (simp add: fixed_string_def decimal.simps)
  have close: "\<exists>v. js_mul (js_div (Fin amount) (Fin r)) (Fin r) = Fin v
                \<and> \<bar>v - amount\<bar> \<le> 2 powi (- 51) * amount
                \<and> (v < 10 ^ 21 \<longrightarrow>
                     (\<exists>n. toFixed 2 (Fin v) = Fixed False n 2
                         \<and> \<bar>fixed_value False n 2 - amount\<bar>
                             \<le> 1 / 200 + 2 powi (- 51) * amount))"
    if range: "2 powi (- 1022) \<le> amount / r \<and> amount / r < 2 ^ 1023
          \<and> 2 powi (- 1021) \<le> amount \<and> amount < 2 ^ 1022"
  proof -
    have same: "amount / r * r = amount" using r by simp
    obtain v where v: "js_mul (js_div (Fin amount) (Fin r)) (Fin r) = Fin v"
      and v0: "0 \<le> v" and vc: "\<bar>v - amount\<bar> \<le> 2 powi (- 51) * amount"
      using quotient_product_close [of amount r r] assms range unfolding same by blast
    have "\<exists>n. toFixed 2 (Fin v) = Fixed False n 2
              \<and> \<bar>fixed_value False n 2 - amount\<bar> \<le> 1 / 200 + 2 powi (- 51) * amount"
      if small: "v < 10 ^ 21"
    proof -
      obtain n where n: "toFixed 2 (Fin v) = Fixed False n 2"
        and nc: "\<bar>fixed_value False n 2 - v\<bar> \<le> 1 / 200"
        using toFixed_close [OF v0 small, of 2] by auto
      from nc vc have "\<bar>fixed_value False n 2 - amount\<bar> \<le> 1 / 200 + 2 powi (- 51) * amount"
        by linarith
      with n show ?thesis by blast
    qed
    with v vc show ?thesis by blast
  qed
  from shown one_text close show ?thesis by blast
qed

theorem same_currency_rate_one_witness:
  "updateConversion example_session (Fin (53 / 8)) ''ZAR'' ''ZAR'' =
     Converted (Fixed False 10000 4) (Fixed False 662 2)
   \<and> fixed_string False 10000 4 = ''1.0000''
   \<and> js_mul (js_div (Fin (53 / 8)) (Fin 19)) (Fin 19) = Fin (7459086882832383 / 2 ^ 50)
   \<and> \<bar>7459086882832383 / 2 ^ 50 - 53 / 8\<bar> \<le> 2 powi (- 51) * (53 / 8 :: real)"
proof -
  have p: "js_mul (js_div (Fin (53 / 8)) (Fin 19)) (Fin 19) = Fin (7459086882832383 / 2 ^ 50)"
    by (simp add: round64_eval)
  have "updateConversion example_session (Fin (53 / 8)) ''ZAR'' ''ZAR'' =
          Converted (Fixed False 10000 4)
                    (toFixed 2 (js_mul (js_div (Fin (53 / 8)) (Fin 19)) (Fin 19)))
        \<and> fixed_string False 10000 4 = ''1.0000''"
    using same_currency_rate_one [of example_session "''ZAR''" 19 "53 / 8"]
    by (simp add: example_session_def example_rates_def del: js_div.simps js_mul.simps)
  then have "updateConversion example_session (Fin (53 / 8)) ''ZAR'' ''ZAR'' =
     Converted (Fixed False 10000 4) (Fixed False 662 2)
     \<and> fixed_string False 10000 4 = ''1.0000''"
    by (simp add: toFixed_def round64_eval)
  moreover have "\<bar>7459086882832383 / 2 ^ 50 - 53 / 8\<bar> \<le> 2 powi (- 51) * (53 / 8 :: real)"
    by (simp add: power_int_minus_divide)
  ultimately show ?thesis using p by simp
qed

text \<open>
  At the rate 19, the amount 6.625 is shown as the total \<open>6.62\<close>, and the amount itself
  written with 2 digits is \<open>6.63\<close>.
\<close>

theorem same_currency_total_counterexample:
  "updateConversion example_session (Fin (53 / 8)) ''ZAR'' ''ZAR'' =
     Converted (Fixed False 10000 4) (Fixed False 662 2)
   \<and> toFixed 2 (Fin (53 / 8)) = Fixed False 663 2
   \<and> fixed_string False 662 2 = ''6.62'' \<and> fixed_string False 663 2 = ''6.63''"
proof -
  have "updateConversion example_session (Fin (53 / 8)) ''ZAR'' ''ZAR'' =
     Converted (Fixed False 10000 4) (Fixed False 662 2)"
    by (simp add: updateConversion_def example_session_def example_rates_def member_def
        toFixed_def round64_eval)
  moreover have "toFixed 2 (Fin (53 / 8)) = Fixed False 663 2"
    by (simp add: toFixed_def)
  moreover have "fixed_string False 662 2 = ''6.62''" "fixed_string False 663 2 = ''6.63''"
    by (simp_all add: fixed_string_def decimal.simps)
  ultimately show ?thesis by simp
qed

lemma close_to_common:
  fixes a b c :: real
  assumes "\<bar>a - c\<bar> \<le> p" "\<bar>b - c\<bar> \<le> q"
  shows "\<bar>a - b\<bar> \<le> p + q"
  using assms by linarith

text \<open>
  Claim C6, as amended. The total that \<open>updateConversion\<close> shows for the amount \<open>x\<close> is
  the 2-digit rounding of the binary64 value \<open>vx = (x / store[a]) * store[b]\<close>, and the
  total shown for the amount 1 is the 2-digit rounding of \<open>v1 = (1 / store[a]) * store[b]\<close>.
  The total is linear in the amount only up to these roundings: in the normal range of
  binary64, \<open>vx\<close> and \<open>v1 * x\<close> differ by at most \<open>2^-50 * (x / store[a] * store[b])\<close>, and
  below \<open>10^21\<close> the total shown for \<open>x\<close> and \<open>x\<close> times the total shown for 1 differ by at
  most \<open>(1 + x) / 200\<close> more than that.
\<close>

theorem total_linear_up_to_rounding:
  assumes "hasRatesLoaded s"
    and "currencyRates s a = Some (Num (Fin ra))" and "0 < ra"
    and "currencyRates s b = Some (Num (Fin rb))" and "0 < rb"
    and "0 < x"
  shows "updateConversion s (Fin 1) a b =
           Converted (toFixed 4 (js_div (Fin rb) (Fin ra)))
                     (toFixed 2 (js_mul (js_div (Fin 1) (Fin ra)) (Fin rb)))
       \<and> updateConversion s (Fin x) a b =
           Converted (toFixed 4 (js_div (Fin rb) (Fin ra)))
                     (toFixed 2 (js_mul (js_div (Fin x) (Fin ra)) (Fin rb)))
       \<and> (2 powi (- 1022) \<le> 1 / ra \<and> 1 / ra < 2 ^ 1023
          \<and> 2 powi (- 1021) \<le> 1 / ra * rb \<and> 1 / ra * rb < 2 ^ 1022
          \<and> 2 powi (- 1022) \<le> x / ra \<and> x / ra < 2 ^ 1023
          \<and> 2 powi (- 1021) \<le> x / ra * rb \<and> x / ra * rb < 2 ^ 1022 \<longrightarrow>
            (\<exists>v1 vx. js_mul (js_div (Fin 1) (Fin ra)) (Fin rb) = Fin v1
                \<and> js_mul (js_div (Fin x) (Fin ra)) (Fin rb) = Fin vx
                \<and> \<bar>vx - v1 * x\<bar> \<le> 2 powi (- 50) * (x / ra * rb)
                \<and> (v1 < 10 ^ 21 \<and> vx < 10 ^ 21 \<longrightarrow>
                     (\<exists>n1 nx. toFixed 2 (Fin v1) = Fixed False n1 2
                         \<and> toFixed 2 (Fin vx) = Fixed False nx 2
                         \<and> \<bar>fixed_value False nx 2 - fixed_value False n1 2 * x\<bar>
                             \<le> (1 + x) / 200 + 2 powi (- 50) * (x / ra * rb)))))"
proof -
  have one: "updateConversion s (Fin 1) a b =
           Converted (toFixed 4 (js_div (Fin rb) (Fin ra)))
                     (toFixed 2 (js_mul (js_div (Fin 1) (Fin ra)) (Fin rb)))"
    using assms by (intro updateConversion_finite) simp_all
  have any: "updateConversion s (Fin x) a b =
           Converted (toFixed 4 (js_div (Fin rb) (Fin ra)))
                     (toFixed 2 (js_mul (js_div (Fin x) (Fin ra)) (Fin rb)))"
    using assms by (intro updateConversion_finite) simp_all
  have close: "\<exists>v1 vx. js_mul (js_div (Fin 1) (Fin ra)) (Fin rb) = Fin v1
                \<and> js_mul (js_div (Fin x) (Fin ra)) (Fin rb) = Fin vx
                \<and> \<bar>vx - v1 * x\<bar> \<le> 2 powi (- 50) * (x / ra * rb)
                \<and> (v1 < 10 ^ 21 \<and> vx < 10 ^ 21 \<longrightarrow>
                     (\<exists>n1 nx. toFixed 2 (Fin v1) = Fixed False n1 2
                         \<and> toFixed 2 (Fin vx) = Fixed False nx 2
                         \<and> \<bar>fixed_value False nx 2 - fixed_value False n1 2 * x\<bar>
                             \<le> (1 + x) / 200 + 2 powi (- 50) * (x / ra * rb)))"
    if range: "2 powi (- 1022) \<le> 1 / ra \<and> 1 / ra < 2 ^ 1023
          \<and> 2 powi (- 1021) \<le> 1 / ra * rb \<and> 1 / ra * rb < 2 ^ 1022
          \<and> 2 powi (- 1022) \<le> x / ra \<and> x / ra < 2 ^ 1023
          \<and> 2 powi (- 1021) \<le> x / ra * rb \<and> x / ra * rb < 2 ^ 1022"
  proof -
    define z where "z = x / ra * rb"
    define e :: real where "e = 2 powi (- 51)"
    have e2: "2 * e = 2 powi (- 50)" by (simp add: e_def power_int_minus_divide)
    have z1: "1 / ra * rb * x = z" by (simp add: z_def)
    obtain v1 where v1: "js_mul (js_div (Fin 1) (Fin ra)) (Fin rb) = Fin v1"
      and v10: "0 \<le> v1" and c1: "\<bar>v1 - 1 / ra * rb\<bar> \<le> e * (1 / ra * rb)"
      using quotient_product_close [of 1 ra rb] assms range unfolding e_def by auto
    obtain vx where vx: "js_mul (js_div (Fin x) (Fin ra)) (Fin rb) = Fin vx"
      and vx0: "0 \<le> vx" and cx: "\<bar>vx - z\<bar> \<le> e * z"
      using quotient_product_close [of x ra rb] assms range unfolding e_def z_def by auto
    have "v1 * x - z = (v1 - 1 / ra * rb) * x"
      by (simp add: z_def left_diff_distrib)
    then have "\<bar>v1 * x - z\<bar> = \<bar>v1 - 1 / ra * rb\<bar> * x"
      using assms by (simp only: abs_mult abs_of_pos)
    also have "\<dots> \<le> e * (1 / ra * rb) * x"
      using c1 assms by (intro mult_right_mono) simp_all
    also have "\<dots> = e * z" by (simp add: z_def)
    finally have c1x: "\<bar>v1 * x - z\<bar> \<le> e * z" .
    have "\<bar>vx - v1 * x\<bar> \<le> e * z + e * z"
      using cx c1x by (rule close_to_common)
    also have "e * z + e * z = 2 * e * z" by simp
    finally have lin: "\<bar>vx - v1 * x\<bar> \<le> 2 powi (- 50) * z" by (simp only: e2)
    have shown: "\<exists>n1 nx. toFixed 2 (Fin v1) = Fixed False n1 2
                         \<and> toFixed 2 (Fin vx) = Fixed False nx 2
                         \<and> \<bar>fixed_value False nx 2 - fixed_value False n1 2 * x\<bar>
                             \<le> (1 + x) / 200 + 2 powi (- 50) * z"
      if small: "v1 < 10 ^ 21 \<and> vx < 10 ^ 21"
    proof -
      obtain n1 where n1: "toFixed 2 (Fin v1) = Fixed False n1 2"
        and d1: "\<bar>fixed_value False n1 2 - v1\<bar> \<le> 1 / 200"
        using toFixed_close [OF v10, of 2] small by auto
      obtain nx where nx: "toFixed 2 (Fin vx) = Fixed False nx 2"
        and dx: "\<bar>fixed_value False nx 2 - vx\<bar> \<le> 1 / 200"
        using toFixed_close [OF vx0, of 2] small by auto
      have "fixed_value False n1 2 * x - v1 * x = (fixed_value False n1 2 - v1) * x"
        by (simp add: left_diff_distrib)
      then have "\<bar>fixed_value False n1 2 * x - v1 * x\<bar> = \<bar>fixed_value False n1 2 - v1\<bar> * x"
        using assms by (simp only: abs_mult abs_of_pos)
      also have "\<dots> \<le> 1 / 200 * x"
        using d1 assms by (intro mult_right_mono) simp_all
      finally have d1x: "\<bar>fixed_value False n1 2 * x - v1 * x\<bar> \<le> x / 200" by simp
      have "\<bar>fixed_value False nx 2 - fixed_value False n1 2 * x\<bar>
            \<le> 1 / 200 + 2 powi (- 50) * z + x / 200"
        using dx lin d1x by linarith
      then have "\<bar>fixed_value False nx 2 - fixed_value False n1 2 * x\<bar>
            \<le> (1 + x) / 200 + 2 powi (- 50) * z"
        by (simp add: add_divide_distrib)
      with n1 nx show ?thesis by blast
    qed
    from v1 vx lin shown show ?thesis unfolding z_def by blast
  qed
  from one any close show ?thesis by blast
qed

theorem total_linear_up_to_rounding_witness:
  "updateConversion example_session (Fin 1) ''JPY'' ''USD'' =
     Converted (Fixed False 67 4) (Fixed False 1 2)
   \<and> updateConversion example_session (Fin 1000) ''JPY'' ''USD'' =
     Converted (Fixed False 67 4) (Fixed False 667 2)
   \<and> \<bar>fixed_value False 667 2 - fixed_value False 1 2 * 1000\<bar>
       \<le> (1 + 1000) / 200 + 2 powi (- 50) * (1000 / 150 * 1 :: real)"
proof -
  have "updateConversion example_session (Fin 1) ''JPY'' ''USD'' =
           Converted (toFixed 4 (js_div (Fin 1) (Fin 150)))
                     (toFixed 2 (js_mul (js_div (Fin 1) (Fin 150)) (Fin 1)))
       \<and> updateConversion example_session (Fin 1000) ''JPY'' ''USD'' =
           Converted (toFixed 4 (js_div (Fin 1) (Fin 150)))
                     (toFixed 2 (js_mul (js_div (Fin 1000) (Fin 150)) (Fin 1)))"
    using total_linear_up_to_rounding [of example_session "''JPY''" 150 "''USD''" 1 1000]
    by (simp add: example_session_def example_rates_def del: js_div.simps js_mul.simps)
  then have "updateConversion example_session (Fin 1) ''JPY'' ''USD'' =
       Converted (Fixed False 67 4) (Fixed False 1 2)
     \<and> updateConversion example_session (Fin 1000) ''JPY'' ''USD'' =
       Converted (Fixed False 67 4) (Fixed False 667 2)"
    by (simp add: toFixed_def round64_eval)
  moreover have "\<bar>fixed_value False 667 2 - fixed_value False 1 2 * 1000\<bar>
       \<le> (1 + 1000) / 200 + 2 powi (- 50) * (1000 / 150 * 1 :: real)"
    by (simp add: fixed_value_def power_int_minus_divide)
  ultimately show ?thesis by simp
qed

text \<open>
  At 150 yen to the dollar, 1 yen shows as \<open>0.01\<close> dollars and 1000 yen as \<open>6.67\<close>,
  not as 1000 times \<open>0.01\<close>.
\<close>

theorem rounded_total_not_linear_counterexample:
  "updateConversion example_session (Fin 1) ''JPY'' ''USD'' =
     Converted (Fixed False 67 4) (Fixed False 1 2)
   \<and> updateConversion example_session (Fin 1000) ''JPY'' ''USD'' =
     Converted (Fixed False 67 4) (Fixed False 667 2)
   \<and> fixed_value False 667 2 \<noteq> fixed_value False 1 2 * 1000"
  by (simp add: updateConversion_def example_session_def example_rates_def member_def
      toFixed_def fixed_value_def round64_eval)

text \<open>
  Claim C10. A store entry that is absent, \<open>null\<close>, \<open>NaN\<close> or 0, for either currency,
  makes \<open>updateConversion\<close> end with \<open>MissingRate\<close> once the amount is accepted; so
  whenever the division is reached, the divisor \<open>store[from]\<close> (and \<open>store[to]\<close>) is
  neither 0 nor \<open>NaN\<close>.
\<close>

theorem falsy_rate_is_missing:
  "(hasRatesLoaded s \<and> \<not> isNaN amount \<and> \<not> js_le amount (Fin 0)
      \<and> (member (currencyRates s) f \<in> {Undefined, Null, Num NaN, Num (Fin 0)}
          \<or> member (currencyRates s) t \<in> {Undefined, Null, Num NaN, Num (Fin 0)})
      \<longrightarrow> updateConversion s amount f t = MissingRate)
   \<and> (updateConversion s amount f t = Converted shown_rate shown_total
      \<longrightarrow> to_number (member (currencyRates s) f) \<notin> {Fin 0, NaN}
          \<and> to_number (member (currencyRates s) t) \<notin> {Fin 0, NaN})"
proof (intro conjI impI)
  assume "hasRatesLoaded s \<and> \<not> isNaN amount \<and> \<not> js_le amount (Fin 0)
      \<and> (member (currencyRates s) f \<in> {Undefined, Null, Num NaN, Num (Fin 0)}
          \<or> member (currencyRates s) t \<in> {Undefined, Null, Num NaN, Num (Fin 0)})"
  then show "updateConversion s amount f t = MissingRate"
    by (auto simp: updateConversion_def truthy_iff)
next
  assume c: "updateConversion s amount f t = Converted shown_rate shown_total"
  then have tf: "truthy (member (currencyRates s) f)" and tt: "truthy (member (currencyRates s) t)"
    by (auto simp: updateConversion_def Let_def split: if_splits)
  show "to_number (member (currencyRates s) f) \<notin> {Fin 0, NaN}"
    using tf by (cases "member (currencyRates s) f" rule: truthy.cases) auto
  show "to_number (member (currencyRates s) t) \<notin> {Fin 0, NaN}"
    using tt by (cases "member (currencyRates s) t" rule: truthy.cases) auto
qed

theorem falsy_rate_is_missing_witness:
  "updateConversion (example_session\<lparr>currencyRates := example_rates(''JPY'' \<mapsto> Num (Fin 0))\<rparr>)
     (Fin 10) ''JPY'' ''USD'' = MissingRate
   \<and> updateConversion (example_session\<lparr>currencyRates := example_rates(''JPY'' \<mapsto> Num NaN)\<rparr>)
     (Fin 10) ''USD'' ''JPY'' = MissingRate
   \<and> to_number (member (currencyRates example_session) ''JPY'') \<noteq> Fin 0"
  using falsy_rate_is_missing
      [of "example_session\<lparr>currencyRates := example_rates(''JPY'' \<mapsto> Num (Fin 0))\<rparr>"
          "Fin 10" "''JPY''" "''USD''"]
    falsy_rate_is_missing
      [of "example_session\<lparr>currencyRates := example_rates(''JPY'' \<mapsto> Num NaN)\<rparr>"
          "Fin 10" "''USD''" "''JPY''"]
    falsy_rate_is_missing
      [of example_session "Fin 1000" "''JPY''" "''USD''" "Fixed False 67 4" "Fixed False 667 2"]
  by (simp add: example_session_def example_rates_def member_def updateConversion_def toFixed_def
      round64_eval)

section \<open>Fetching the rates\<close>

lemma failed_attempts_upto_1: "failed_attempts 0 (Suc 0) = [Fetch_attempt 0, Backoff 1000]"
  by (simp add: failed_attempts_def)

lemma failed_attempts_upto_2:
  "failed_attempts 0 2 = [Fetch_attempt 0, Backoff 1000, Fetch_attempt 1, Backoff 2000]"
proof -
  have "failed_attempts 0 (Suc (Suc 0)) =
        failed_attempts 0 (Suc 0) @ [Fetch_attempt (Suc 0), Backoff (2 ^ Suc 0 * 1000)]"
    by (rule failed_attempts_Suc) simp
  then show ?thesis by (simp add: failed_attempts_upto_1 numeral_2_eq_2)
qed

lemma fetchRates_live:
  assumes "\<forall>i<k. fetch b i = Failed"
    and "fetch b k = Body data_base data_rates"
    and "k < retries"
  shows "fetchRates fetch now b retries s =
         (True, saveRatesCache now
                  (s\<lparr>isOfflineMode := False,
                     events := events s @ failed_attempts 0 k @ [Fetch_attempt k],
                     currencyRates := data_rates(data_base \<mapsto> Num (Fin 1)),
                     hasRatesLoaded := True\<rparr>))"
proof -
  have "fetchRates fetch now b retries s =
        fetch_loop (fetch b) now retries k
          (s\<lparr>isOfflineMode := False, events := events s @ failed_attempts 0 k\<rparr>)"
    unfolding fetchRates_def
    using assms by (subst fetch_loop_failed_prefix [where k = k]) simp_all
  then show ?thesis
    using assms by (simp add: fetch_loop_success)
qed

text \<open>
  Claim C2, as amended. When the requests \<open>0, ..., k - 1\<close> fail and request \<open>k\<close>
  succeeds, \<open>k\<close> below the number of retries, \<open>fetchRates\<close> returns true after waiting
  \<open>2^i * 1000\<close> ms after each failed request \<open>i\<close> and not otherwise, the offline flag is
  off and the store is the received rates with the received base set to 1. With the first
  request failing and the second succeeding there is one wait, of \<open>2^0 * 1000 = 1000\<close> ms.
\<close>

theorem backoff_before_success:
  assumes "\<forall>i<k. fetch b i = Failed"
    and "fetch b k = Body data_base data_rates"
    and "k < retries"
  shows "fst (fetchRates fetch now b retries s)
       \<and> events (snd (fetchRates fetch now b retries s)) =
           events s @ failed_attempts 0 k @ [Fetch_attempt k]
       \<and> \<not> isOfflineMode (snd (fetchRates fetch now b retries s))
       \<and> hasRatesLoaded (snd (fetchRates fetch now b retries s))
       \<and> currencyRates (snd (fetchRates fetch now b retries s)) =
           data_rates(data_base \<mapsto> Num (Fin 1))"
  using assms by (simp add: fetchRates_live [where k = k])

theorem backoff_before_success_witness:
  "fst (fetchRates second_attempt_succeeds ''2024-05-01T10:00:00.000Z'' ''USD'' 3 fresh_session)
   \<and> events (snd (fetchRates second_attempt_succeeds ''2024-05-01T10:00:00.000Z'' ''USD'' 3
        fresh_session)) = [Fetch_attempt 0, Backoff 1000, Fetch_attempt 1]
   \<and> isOfflineMode (snd (fetchRates second_attempt_succeeds ''2024-05-01T10:00:00.000Z'' ''USD'' 3
        fresh_session)) = False"
  using backoff_before_success [of 1 second_attempt_succeeds "''USD''" "''USD''" live_rates 3
      "''2024-05-01T10:00:00.000Z''" fresh_session]
  by (simp add: second_attempt_succeeds_def fresh_session_def failed_attempts_upto_1)

text \<open>
  With 3 retries, a first request that fails and a second that succeeds, the log holds one
  wait, of 1000 ms, and no wait of 2000 ms.
\<close>

theorem backoff_2000_counterexample:
  "events (snd (fetchRates second_attempt_succeeds ''2024-05-01T10:00:00.000Z'' ''USD'' 3
      fresh_session)) = [Fetch_attempt 0, Backoff 1000, Fetch_attempt 1]
   \<and> Backoff 2000 \<notin> set (events (snd (fetchRates second_attempt_succeeds
      ''2024-05-01T10:00:00.000Z'' ''USD'' 3 fresh_session)))"
  by (simp add: fetchRates_def fetch_loop.simps second_attempt_succeeds_def fresh_session_def
      Let_def)

text \<open>
  Claim C4. When all of the \<open>retries\<close> requests fail (at least one being made) and the
  cache document exists and parses, \<open>fetchRates\<close> returns true, the store is the parsed
  rates of the snapshot and the offline flag is set; every request was made, with a wait
  after each but the last.
\<close>

theorem cache_fallback:
  assumes "\<forall>i<retries. fetch b i = Failed"
    and "0 < retries"
    and "db s = Docs (Some data)"
    and "JSON_parse (rates data) = Some cached"
  shows "fetchRates fetch now b retries s =
         (True, s\<lparr>currencyRates := cached, isOfflineMode := True, hasRatesLoaded := True,
                  events := events s @ failed_attempts 0 (retries - 1)
                            @ [Fetch_attempt (retries - 1)]\<rparr>)"
proof -
  have "fetchRates fetch now b retries s =
        fetch_loop (fetch b) now retries (retries - 1)
          (s\<lparr>isOfflineMode := False, events := events s @ failed_attempts 0 (retries - 1)\<rparr>)"
    unfolding fetchRates_def
    using assms by (subst fetch_loop_failed_prefix [where k = "retries - 1"]) simp_all
  moreover have "fetch b (retries - 1) = Failed" "Suc (retries - 1) = retries"
    using assms by simp_all
  ultimately show ?thesis
    using assms by (simp add: fetch_loop_last_failed loadRatesCache_def)
qed

theorem cache_fallback_witness:
  "fetchRates always_fails ''2024-05-01T10:00:00.000Z'' ''USD'' 3 cached_session =
     (True, cached_session\<lparr>currencyRates := example_rates, isOfflineMode := True,
        hasRatesLoaded := True,
        events := [Fetch_attempt 0, Backoff 1000, Fetch_attempt 1, Backoff 2000,
                   Fetch_attempt 2]\<rparr>)"
  using cache_fallback [of 3 always_fails "''USD''" cached_session
      "\<lparr>rates = Json example_rates, timestamp = ''2024-05-01T09:00:00.000Z'', base = ''USD''\<rparr>"
      example_rates "''2024-05-01T10:00:00.000Z''"]
  by (simp add: always_fails_def cached_session_def fresh_session_def failed_attempts_upto_2)

lemma saveRatesCache_keeps_base:
  assumes "currencyRates s b = Some (Num (Fin 1))"
    and "cache_maps_base_to_one b (db s)"
  shows "cache_maps_base_to_one b (db (saveRatesCache now s))"
  using assms
  by (auto simp: saveRatesCache_def cache_maps_base_to_one_def JSON_stringify_def json_value_def
      split: firestore.splits option.splits)

lemma loadRatesCache_db [simp]: "db (snd (loadRatesCache s)) = db s"
  by (simp add: loadRatesCache_def split: firestore.splits option.splits)

lemma loadRatesCache_base:
  assumes "cache_maps_base_to_one b (db s)"
    and "fst (loadRatesCache s)"
  shows "currencyRates (snd (loadRatesCache s)) b = Some (Num (Fin 1))"
  using assms
  by (auto simp: loadRatesCache_def cache_maps_base_to_one_def
      split: firestore.splits option.splits)

lemma fetch_loop_keeps_base:
  assumes "cache_maps_base_to_one b (db s)"
    and "\<forall>j data_base data_rates. fetch j = Body data_base data_rates \<longrightarrow> data_base = b"
  shows "cache_maps_base_to_one b (db (snd (fetch_loop fetch now retries i s)))
       \<and> (fst (fetch_loop fetch now retries i s) \<longrightarrow>
            currencyRates (snd (fetch_loop fetch now retries i s)) b = Some (Num (Fin 1)))"
  using assms
proof (induction fetch now retries i s rule: fetch_loop.induct)
  case (1 fetch now retries i s)
  let ?s = "s\<lparr>events := events s @ [Fetch_attempt i]\<rparr>"
  show ?case
  proof (cases "i < retries")
    case False
    then have "fetch_loop fetch now retries i s = (False, s)"
      by (subst fetch_loop.simps) simp
    with "1.prems" show ?thesis by simp
  next
    case ir: True
    show ?thesis
    proof (cases "fetch i")
      case (Body data_base data_rates)
      with "1.prems"(2) have db: "data_base = b" by blast
      from Body ir
      have run: "fetch_loop fetch now retries i s =
                 (True, saveRatesCache now
                    (?s\<lparr>currencyRates := data_rates(data_base \<mapsto> Num (Fin 1)),
                        hasRatesLoaded := True\<rparr>))"
        by (subst fetch_loop.simps) (simp add: Let_def)
      show ?thesis
        unfolding run using db "1.prems"(1)
        by (simp add: saveRatesCache_keeps_base)
    next
      case Failed
      show ?thesis
      proof (cases "i = retries - 1")
        case True
        from Failed ir True
        have run: "fetch_loop fetch now retries i s =
                   (fst (loadRatesCache ?s),
                    (snd (loadRatesCache ?s))\<lparr>hasRatesLoaded := fst (loadRatesCache ?s)\<rparr>)"
          by (subst fetch_loop.simps) (simp add: Let_def split: prod.splits)
        have c: "cache_maps_base_to_one b (db ?s)" using "1.prems"(1) by simp
        show ?thesis
          unfolding run using c loadRatesCache_base [OF c] by simp
      next
        case False
        let ?t = "?s\<lparr>events := events ?s @ [Backoff (2 ^ i * 1000)]\<rparr>"
        from Failed ir False
        have run: "fetch_loop fetch now retries i s = fetch_loop fetch now retries (i + 1) ?t"
          by (subst fetch_loop.simps) (simp add: Let_def)
        have "cache_maps_base_to_one b (db ?t)" using "1.prems"(1) by simp
        from "1.IH" [OF ir refl Failed False this "1.prems"(2)] show ?thesis
          unfolding run .
      qed
    qed
  qed
qed

lemma fetchRates_keeps_base:
  assumes "cache_maps_base_to_one b (db s)"
    and "\<forall>i data_base data_rates. fetch b i = Body data_base data_rates \<longrightarrow> data_base = b"
  shows "cache_maps_base_to_one b (db (snd (fetchRates fetch now b retries s)))"
    and "fst (fetchRates fetch now b retries s) \<Longrightarrow>
         currencyRates (snd (fetchRates fetch now b retries s)) b = Some (Num (Fin 1))"
proof -
  have "cache_maps_base_to_one b (db (s\<lparr>isOfflineMode := False\<rparr>))" using assms(1) by simp
  from fetch_loop_keeps_base [OF this assms(2)]
  show "cache_maps_base_to_one b (db (snd (fetchRates fetch now b retries s)))"
    and "fst (fetchRates fetch now b retries s) \<Longrightarrow>
         currencyRates (snd (fetchRates fetch now b retries s)) b = Some (Num (Fin 1))"
    by (simp_all add: fetchRates_def)
qed

lemma after_visits_keeps_base:
  assumes "cache_maps_base_to_one b (db s)"
    and "\<forall>v\<in>set history. \<forall>i data_base data_rates.
           fst v b i = Body data_base data_rates \<longrightarrow> data_base = b"
  shows "cache_maps_base_to_one b (db (after_visits b history s))"
  using assms
proof (induction history arbitrary: s)
  case Nil
  then show ?case by simp
next
  case (Cons v history)
  obtain fetch now retries where v: "v = (fetch, now, retries)" by (cases v)
  have "cache_maps_base_to_one b (db (page_load s))"
    using Cons.prems(1) by (simp add: page_load_def)
  moreover have "\<forall>i data_base data_rates. fetch b i = Body data_base data_rates \<longrightarrow> data_base = b"
    using Cons.prems(2) v by simp
  ultimately have "cache_maps_base_to_one b
      (db (snd (fetchRates fetch now b retries (page_load s))))"
    by (rule fetchRates_keeps_base(1))
  moreover have "\<forall>v\<in>set history. \<forall>i data_base data_rates.
           fst v b i = Body data_base data_rates \<longrightarrow> data_base = b"
    using Cons.prems(2) by simp
  ultimately show ?case
    unfolding v by (simp add: Cons.IH)
qed

text \<open>
  Claim C9. The cache is written by \<open>saveRatesCache\<close> only, after the self-rate has been
  set. Starting from a database that holds no cache document, after any list of visits in
  which the service names the requested base \<open>b\<close> in its bodies, every call of
  \<open>fetchRates\<close> that returns true, from a live body or from the cache, leaves the store
  mapping \<open>b\<close> to exactly 1.
\<close>

theorem base_rate_invariant:
  assumes "\<forall>d. db s \<noteq> Docs (Some d)"
    and "\<forall>v\<in>set (history @ [(fetch, now, retries)]). \<forall>i data_base data_rates.
           fst v b i = Body data_base data_rates \<longrightarrow> data_base = b"
    and "fst (fetchRates fetch now b retries (page_load (after_visits b history s)))"
  shows "currencyRates
           (snd (fetchRates fetch now b retries (page_load (after_visits b history s)))) b
         = Some (Num (Fin 1))"
proof -
  have start: "cache_maps_base_to_one b (db s)"
    using assms(1) by (auto simp: cache_maps_base_to_one_def split: firestore.splits option.splits)
  have "\<forall>v\<in>set history. \<forall>i data_base data_rates.
           fst v b i = Body data_base data_rates \<longrightarrow> data_base = b"
    using assms(2) by simp
  with start have "cache_maps_base_to_one b (db (after_visits b history s))"
    by (rule after_visits_keeps_base)
  then have "cache_maps_base_to_one b (db (page_load (after_visits b history s)))"
    by (simp add: page_load_def)
  moreover have "\<forall>i data_base data_rates. fetch b i = Body data_base data_rates \<longrightarrow> data_base = b"
    using assms(2) by simp
  ultimately show ?thesis
    using assms(3) by (rule fetchRates_keeps_base(2))
qed

lemma live_then_cached:
  "fetchRates always_fails ''2024-05-02T10:00:00.000Z'' ''USD'' 3
     (page_load (snd (fetchRates second_attempt_succeeds ''2024-05-01T10:00:00.000Z'' ''USD'' 3
        (page_load empty_cache_session))))
   = (True, \<lparr>currencyRates = live_rates(''USD'' \<mapsto> Num (Fin 1)), isOfflineMode = True,
        hasRatesLoaded = True,
        db = Docs (Some \<lparr>rates = Json (live_rates(''USD'' \<mapsto> Num (Fin 1))),
                          timestamp = ''2024-05-01T10:00:00.000Z'', base = ''USD''\<rparr>),
        events = [Fetch_attempt 0, Backoff 1000, Fetch_attempt 1, Backoff 2000,
                  Fetch_attempt 2]\<rparr>)"
proof -
  let ?s1 = "\<lparr>currencyRates = live_rates(''USD'' \<mapsto> Num (Fin 1)), isOfflineMode = False,
        hasRatesLoaded = True,
        db = Docs (Some \<lparr>rates = Json (live_rates(''USD'' \<mapsto> Num (Fin 1))),
                          timestamp = ''2024-05-01T10:00:00.000Z'', base = ''USD''\<rparr>),
        events = [Fetch_attempt 0, Backoff 1000, Fetch_attempt 1]\<rparr>"
  have j: "JSON_stringify (live_rates(''USD'' \<mapsto> Num (Fin 1))) =
           Json (live_rates(''USD'' \<mapsto> Num (Fin 1)))"
    by (auto simp: JSON_stringify_def json_value_def live_rates_def fun_eq_iff)
  have first: "fetchRates second_attempt_succeeds ''2024-05-01T10:00:00.000Z'' ''USD'' 3
                 (page_load empty_cache_session) = (True, ?s1)"
    by (simp add: fetchRates_def fetch_loop.simps second_attempt_succeeds_def page_load_def
        empty_cache_session_def fresh_session_def saveRatesCache_def j API_BASE_CURRENCY_def
        Let_def)
  have second: "fetchRates always_fails ''2024-05-02T10:00:00.000Z'' ''USD'' 3 (page_load ?s1) =
     (True, \<lparr>currencyRates = live_rates(''USD'' \<mapsto> Num (Fin 1)), isOfflineMode = True,
        hasRatesLoaded = True,
        db = Docs (Some \<lparr>rates = Json (live_rates(''USD'' \<mapsto> Num (Fin 1))),
                          timestamp = ''2024-05-01T10:00:00.000Z'', base = ''USD''\<rparr>),
        events = [Fetch_attempt 0, Backoff 1000, Fetch_attempt 1, Backoff 2000,
                  Fetch_attempt 2]\<rparr>)"
    by (simp add: fetchRates_def fetch_loop.simps always_fails_def page_load_def
        loadRatesCache_def Let_def)
  show ?thesis
    by (simp only: first snd_conv second)
qed

theorem base_rate_invariant_witness:
  "fst (fetchRates always_fails ''2024-05-02T10:00:00.000Z'' ''USD'' 3
     (page_load (after_visits ''USD''
        [(second_attempt_succeeds, ''2024-05-01T10:00:00.000Z'', 3)] empty_cache_session)))
   \<and> isOfflineMode (snd (fetchRates always_fails ''2024-05-02T10:00:00.000Z'' ''USD'' 3
     (page_load (after_visits ''USD''
        [(second_attempt_succeeds, ''2024-05-01T10:00:00.000Z'', 3)] empty_cache_session))))
   \<and> currencyRates (snd (fetchRates always_fails ''2024-05-02T10:00:00.000Z'' ''USD'' 3
     (page_load (after_visits ''USD''
        [(second_attempt_succeeds, ''2024-05-01T10:00:00.000Z'', 3)] empty_cache_session))))
       ''USD'' = Some (Num (Fin 1))"
proof -
  have "currencyRates (snd (fetchRates always_fails ''2024-05-02T10:00:00.000Z'' ''USD'' 3
     (page_load (after_visits ''USD''
        [(second_attempt_succeeds, ''2024-05-01T10:00:00.000Z'', 3)] empty_cache_session))))
       ''USD'' = Some (Num (Fin 1))"
  proof (rule base_rate_invariant)
    show "\<forall>d. db empty_cache_session \<noteq> Docs (Some d)"
      by (simp add: empty_cache_session_def fresh_session_def)
    show "\<forall>v\<in>set ([(second_attempt_succeeds, ''2024-05-01T10:00:00.000Z'', 3)]
              @ [(always_fails, ''2024-05-02T10:00:00.000Z'', 3)]).
            \<forall>i data_base data_rates.
              fst v ''USD'' i = Body data_base data_rates \<longrightarrow> data_base = ''USD''"
      by (simp add: second_attempt_succeeds_def always_fails_def)
    show "fst (fetchRates always_fails ''2024-05-02T10:00:00.000Z'' ''USD'' 3
       (page_load (after_visits ''USD''
          [(second_attempt_succeeds, ''2024-05-01T10:00:00.000Z'', 3)] empty_cache_session)))"
      by (simp add: live_then_cached)
  qed
  then show ?thesis by (simp add: live_then_cached)
qed

section \<open>The historical trend\<close>

lemma collect_rates_truthy: "p \<in> set (collect_rates to series) \<Longrightarrow> truthy (rate p)"
  by (induction to series rule: collect_rates.induct) (auto split: if_splits)

lemma sorted_rates_truthy: "p \<in> set (sorted_rates to series) \<Longrightarrow> truthy (rate p)"
  by (simp add: sorted_rates_def collect_rates_truthy)

lemma sorted_rates_ascending: "sorted (map date (sorted_rates to series))"
proof -
  have "sorted (map (\<lambda>p. Date_getTime (date p)) (sorted_rates to series))"
    unfolding sorted_rates_def by (rule sorted_sort_key)
  then have "sorted_wrt (\<lambda>p q. Date_getTime (date p) \<le> Date_getTime (date q))
               (sorted_rates to series)"
    by (simp add: sorted_map)
  then have "sorted_wrt (\<lambda>p q. date p \<le> date q) (sorted_rates to series)"
    by (rule sorted_wrt_mono_rel [rotated]) (simp add: Date_getTime_def)
  then show ?thesis by (simp add: sorted_map)
qed

lemma length_sorted_rates [simp]:
  "length (sorted_rates to series) = length (collect_rates to series)"
  by (simp add: sorted_rates_def)

lemma trend_of_finite:
  assumes "rate (rs ! 0) = Num (Fin a)"
    and "rate (rs ! (length rs - 1)) = Num (Fin b)"
  shows "trend_of rs =
         \<lparr>startPoint = rs ! 0, endPoint = rs ! (length rs - 1),
          change = js_sub (Fin b) (Fin a),
          percentageChange =
            toFixed 2 (js_mul (js_div (js_sub (Fin b) (Fin a)) (Fin a)) (Fin 100)),
          trendText = (if js_less (Fin 0) (js_sub (Fin b) (Fin a)) then Increased
                       else if js_less (js_sub (Fin b) (Fin a)) (Fin 0) then Decreased
                       else Stable),
          days_shown = length rs\<rparr>"
  using assms by (simp add: trend_of_def Let_def del: js_sub.simps js_div.simps js_mul.simps)

text \<open>
  Claim C5. Let \<open>points\<close> be the fetched series filtered to the dates that have a truthy
  rate for the target and sorted by date, as \<open>fetchHistoricalRates\<close> builds it; it is
  ascending by date. When it has at least 2 points, with the finite rates \<open>a\<close> first and
  \<open>b\<close> last, the result is the trend that starts at \<open>points[0]\<close>, ends at the last point,
  has the change \<open>b - a\<close>, the percentage \<open>(change / a) * 100\<close> written with 2 digits, and
  the direction increased, decreased or stable as the change is greater than 0, less than
  0 or neither; the difference, the quotient and the product are those of the script's
  binary64 arithmetic. For the rates 1.10 and then 1.20 it is increased with the
  percentage \<open>9.09\<close>.
\<close>

theorem trend_summary:
  assumes "hasRatesLoaded s" and "\<not> isOfflineMode s"
    and "points = sorted_rates to series"
    and "2 \<le> length points"
    and "rate (points ! 0) = Num (Fin a)"
    and "rate (last points) = Num (Fin b)"
  shows "fetchHistoricalRates s (Hist_body (Some series)) to =
         Trend \<lparr>startPoint = points ! 0, endPoint = last points,
                change = js_sub (Fin b) (Fin a),
                percentageChange =
                  toFixed 2 (js_mul (js_div (js_sub (Fin b) (Fin a)) (Fin a)) (Fin 100)),
                trendText = (if js_less (Fin 0) (js_sub (Fin b) (Fin a)) then Increased
                             else if js_less (js_sub (Fin b) (Fin a)) (Fin 0) then Decreased
                             else Stable),
                days_shown = length points\<rparr>
       \<and> sorted (map date points)"
proof -
  have ne: "points \<noteq> []" using assms(4) by auto
  then have series: "length series \<noteq> 0" using assms(3) by (auto simp: sorted_rates_def)
  have lastp: "points ! (length points - 1) = last points"
    using ne by (simp add: last_conv_nth)
  have "trend_of points =
         \<lparr>startPoint = points ! 0, endPoint = points ! (length points - 1),
          change = js_sub (Fin b) (Fin a),
          percentageChange =
            toFixed 2 (js_mul (js_div (js_sub (Fin b) (Fin a)) (Fin a)) (Fin 100)),
          trendText = (if js_less (Fin 0) (js_sub (Fin b) (Fin a)) then Increased
                       else if js_less (js_sub (Fin b) (Fin a)) (Fin 0) then Decreased
                       else Stable),
          days_shown = length points\<rparr>"
    using assms(5,6) lastp by (intro trend_of_finite) simp_all
  then have "fetchHistoricalRates s (Hist_body (Some series)) to =
         Trend \<lparr>startPoint = points ! 0, endPoint = last points,
                change = js_sub (Fin b) (Fin a),
                percentageChange =
                  toFixed 2 (js_mul (js_div (js_sub (Fin b) (Fin a)) (Fin a)) (Fin 100)),
                trendText = (if js_less (Fin 0) (js_sub (Fin b) (Fin a)) then Increased
                             else if js_less (js_sub (Fin b) (Fin a)) (Fin 0) then Decreased
                             else Stable),
                days_shown = length points\<rparr>"
    using assms(1,2,4) series assms(3) [symmetric] lastp
    by (simp add: fetchHistoricalRates_def Let_def del: js_sub.simps js_div.simps js_mul.simps)
  moreover have "sorted (map date points)"
    unfolding assms(3) by (rule sorted_rates_ascending)
  ultimately show ?thesis by simp
qed

theorem trend_summary_witness:
  "fetchHistoricalRates example_session (Hist_body (Some two_day_series)) ''EUR'' =
     Trend \<lparr>startPoint = \<lparr>date = 19844, rate = Num (Fin (2476979795053773 / 2 ^ 51))\<rparr>,
            endPoint = \<lparr>date = 19845, rate = Num (Fin (5404319552844595 / 2 ^ 52))\<rparr>,
            change = Fin (450359962737049 / 2 ^ 52), percentageChange = Fixed False 909 2,
            trendText = Increased, days_shown = 2\<rparr>
   \<and> fixed_string False 909 2 = ''9.09''
   \<and> fetchHistoricalRates example_session (Hist_body (Some rising_series)) ''EUR'' =
     Trend \<lparr>startPoint = \<lparr>date = 19844, rate = Num (Fin 5)\<rparr>,
            endPoint = \<lparr>date = 19845, rate = Num (Fin (183 / 32))\<rparr>,
            change = Fin (23 / 32), percentageChange = Fixed False 1437 2,
            trendText = Increased, days_shown = 2\<rparr>"
proof -
  have pts: "sorted_rates ''EUR'' two_day_series =
      [\<lparr>date = 19844, rate = Num (Fin (2476979795053773 / 2 ^ 51))\<rparr>,
       \<lparr>date = 19845, rate = Num (Fin (5404319552844595 / 2 ^ 52))\<rparr>]"
    by (simp add: sorted_rates_def two_day_series_def member_def Date_getTime_def round64_eval)
  have pts2: "sorted_rates ''EUR'' rising_series =
      [\<lparr>date = 19844, rate = Num (Fin 5)\<rparr>, \<lparr>date = 19845, rate = Num (Fin (183 / 32))\<rparr>]"
    by (simp add: sorted_rates_def rising_series_def member_def Date_getTime_def)
  have "fetchHistoricalRates example_session (Hist_body (Some two_day_series)) ''EUR'' =
     Trend \<lparr>startPoint = \<lparr>date = 19844, rate = Num (Fin (2476979795053773 / 2 ^ 51))\<rparr>,
            endPoint = \<lparr>date = 19845, rate = Num (Fin (5404319552844595 / 2 ^ 52))\<rparr>,
            change = Fin (450359962737049 / 2 ^ 52), percentageChange = Fixed False 909 2,
            trendText = Increased, days_shown = 2\<rparr>"
    using trend_summary [of example_session
        "[\<lparr>date = 19844, rate = Num (Fin (2476979795053773 / 2 ^ 51))\<rparr>,
          \<lparr>date = 19845, rate = Num (Fin (5404319552844595 / 2 ^ 52))\<rparr>]"
        "''EUR''" two_day_series "2476979795053773 / 2 ^ 51" "5404319552844595 / 2 ^ 52"]
      pts
    by (simp add: example_session_def toFixed_def round64_eval)
  moreover have "fetchHistoricalRates example_session (Hist_body (Some rising_series)) ''EUR'' =
     Trend \<lparr>startPoint = \<lparr>date = 19844, rate = Num (Fin 5)\<rparr>,
            endPoint = \<lparr>date = 19845, rate = Num (Fin (183 / 32))\<rparr>,
            change = Fin (23 / 32), percentageChange = Fixed False 1437 2,
            trendText = Increased, days_shown = 2\<rparr>"
    using trend_summary [of example_session
        "[\<lparr>date = 19844, rate = Num (Fin 5)\<rparr>, \<lparr>date = 19845, rate = Num (Fin (183 / 32))\<rparr>]"
        "''EUR''" rising_series 5 "183 / 32"]
      pts2
    by (simp add: example_session_def toFixed_def round64_eval)
  moreover have "fixed_string False 909 2 = ''9.09''"
    by (simp add: fixed_string_def decimal.simps)
  ultimately show ?thesis by simp
qed

text \<open>
  Claim C8, as amended. When fewer than 2 points remain after the filtering and the
  fetched series is not empty, the result is \<open>Not_enough\<close> with the number of remaining
  points (1 for a single point). An empty series, or a body without \<open>rates\<close>, gives
  \<open>No_data\<close>, which carries no count. Neither is an error or a trend.
\<close>

theorem too_few_points:
  assumes "hasRatesLoaded s" and "\<not> isOfflineMode s"
    and "length (collect_rates to series) < 2"
  shows "fetchHistoricalRates s (Hist_body (Some series)) to =
           (if series = [] then No_data else Not_enough (length (collect_rates to series)))
       \<and> fetchHistoricalRates s (Hist_body None) to = No_data"
  using assms by (simp add: fetchHistoricalRates_def Let_def)

theorem too_few_points_witness:
  "fetchHistoricalRates example_session (Hist_body (Some one_day_series)) ''EUR'' = Not_enough 1"
  using too_few_points [of example_session "''EUR''" one_day_series]
  by (simp add: example_session_def one_day_series_def member_def)

text \<open>
  For an empty series no point remains, and the result is \<open>No_data\<close>, not
  \<open>Not_enough 0\<close>.
\<close>

theorem empty_series_counterexample:
  "length (collect_rates ''EUR'' []) = 0
   \<and> fetchHistoricalRates example_session (Hist_body (Some [])) ''EUR'' = No_data
   \<and> fetchHistoricalRates example_session (Hist_body (Some [])) ''EUR'' \<noteq> Not_enough 0"
  by (simp add: fetchHistoricalRates_def example_session_def)

end
